theory Spec2Isabelle
  imports Complex_Main "HOL-Library.Monad_Syntax" "HOL-Library.Option_ord"
begin

section \<open>Python values, errors and tensors\<close>

text \<open>
  The embedding follows \<^verbatim>\<open>Algorithms/option_critic/option_critic.py\<close>, class
  \<^verbatim>\<open>OptionCritic\<close>. Python floats and tensor entries are read as real numbers
  (rounding, overflow, infinities and NaN of IEEE arithmetic are outside the embedding),
  Python ints as \<open>int\<close>. An exception is a value of type \<open>error\<close>.
\<close>

datatype error =
    OSError string
  | AttributeError string
  | KeyError string
  | ZeroDivisionError
  | RuntimeError string

text \<open>
  The hyperparameters \<^verbatim>\<open>__init__\<close> stores on \<^verbatim>\<open>self\<close> (lines 83-102).
\<close>

record config =
  replay_size :: int
  lr :: real
  gamma :: real
  eps_start :: real
  eps_end :: real
  eps_decay :: real
  batch_size :: int
  update_every :: int
  termination_reg :: real
  max_ep_len :: int
  polyak :: real
  entropy_reg :: real
  save_freq :: int
  save_dir :: string
  ngpu :: int

section \<open>Tensors\<close>

text \<open>
  A one-dimensional tensor is the list of its entries, a matrix (batch by options) the list
  of its rows. A torch operation that raises (an index out of range, shapes that do not
  broadcast, a reduction over no element) returns \<open>None\<close>.
\<close>

type_synonym tensor = "real list"
type_synonym matrix = "real list list"

text \<open>
  An elementwise binary operation with torch's broadcasting, for one-dimensional tensors:
  equal sizes, or one operand of size one.
\<close>

definition broadcast :: "(real \<Rightarrow> real \<Rightarrow> real) \<Rightarrow> tensor \<Rightarrow> tensor \<Rightarrow> tensor option" where
  "broadcast f a b =
     (if length a = length b then Some (map2 f a b)
      else if length a = 1 then Some (map (f (hd a)) b)
      else if length b = 1 then Some (map (\<lambda>x. f x (hd b)) a)
      else None)"

definition t_add :: "tensor \<Rightarrow> tensor \<Rightarrow> tensor option" where
  "t_add = broadcast (+)"

definition t_sub :: "tensor \<Rightarrow> tensor \<Rightarrow> tensor option" where
  "t_sub = broadcast (-)"

definition t_mul :: "tensor \<Rightarrow> tensor \<Rightarrow> tensor option" where
  "t_mul = broadcast (*)"

text \<open>\<^verbatim>\<open>torch.min(a, b)\<close>: the elementwise minimum of two tensors.\<close>

definition t_min :: "tensor \<Rightarrow> tensor \<Rightarrow> tensor option" where
  "t_min = broadcast min"

text \<open>
  Operations with a Python scalar: \<^verbatim>\<open>c - t\<close>, \<^verbatim>\<open>t * c\<close>, \<^verbatim>\<open>t + c\<close>,
  \<^verbatim>\<open>c * t\<close>, \<^verbatim>\<open>t ** 2\<close>.
\<close>

definition rsub :: "real \<Rightarrow> tensor \<Rightarrow> tensor" where
  "rsub c t = map (\<lambda>x. c - x) t"

definition scale :: "tensor \<Rightarrow> real \<Rightarrow> tensor" where
  "scale t c = map (\<lambda>x. x * c) t"

definition adds :: "tensor \<Rightarrow> real \<Rightarrow> tensor" where
  "adds t c = map (\<lambda>x. x + c) t"

definition smul :: "real \<Rightarrow> tensor \<Rightarrow> tensor" where
  "smul c t = map (\<lambda>x. c * x) t"

definition square :: "tensor \<Rightarrow> tensor" where
  "square t = map (\<lambda>x. x ^ 2) t"

text \<open>
  \<^verbatim>\<open>t.mean()\<close>. On a tensor with no entry torch returns NaN; the embedding has no NaN
  and the properties below are stated for a batch with at least one entry.
\<close>

definition mean :: "tensor \<Rightarrow> real" where
  "mean t = sum_list t / real (length t)"

text \<open>
  \<^verbatim>\<open>t.detach()\<close>: the same entries, cut from the autograd graph. The embedding tracks
  the entries of intermediate tensors, not the graph.
\<close>

definition detach :: "tensor \<Rightarrow> tensor" where
  "detach t = t"

text \<open>
  \<^verbatim>\<open>m[batch_idx, options]\<close>: advanced indexing with two index tensors, entry
  \<open>k\<close> of the result is \<open>m[batch_idx[k], options[k]]\<close>.
\<close>

definition index2 :: "matrix \<Rightarrow> nat list \<Rightarrow> nat list \<Rightarrow> tensor option" where
  "index2 m is js =
     (if length is = length js
      then those (map2 (\<lambda>i j. if i < length m \<and> j < length (m ! i) then Some (m ! i ! j) else None) is js)
      else None)"

text \<open>\<^verbatim>\<open>m.max(dim=-1).values\<close>: the maximum of every row.\<close>

definition max_last :: "matrix \<Rightarrow> tensor option" where
  "max_last m = those (map (\<lambda>row. if row = [] then None else Some (Max (set row))) m)"

section \<open>Parameters, modules and the store\<close>

text \<open>
  Parameters are shared objects: the optimizer holds references to the parameters of the
  model, and the target model holds copies of its own. A parameter is an address in a
  store; \<^verbatim>\<open>deepcopy\<close> allocates fresh addresses.
\<close>

record param =
  data :: tensor
  requires_grad :: bool

type_synonym addr = nat
type_synonym store = "addr \<Rightarrow> param"

record module =
  params :: "addr list"
  training :: bool

text \<open>What a forward pass of a module reads: its mode and the entries of its parameters.\<close>

type_synonym net_view = "bool \<times> tensor list"

definition view :: "store \<Rightarrow> module \<Rightarrow> net_view" where
  "view h m = (training m, map (\<lambda>a. data (h a)) (params m))"

record 'os optimizer =
  opt_params :: "addr list"
  opt_state :: 'os

type_synonym obs = "real list"
type_synonym action = "real list"
type_synonym frame = "real list"

text \<open>A stored transition: (obs, option, reward, next_obs, done).\<close>

type_synonym transition = "obs \<times> nat \<times> real \<times> obs \<times> bool"

text \<open>
  A sampled batch as \<^verbatim>\<open>sac_update\<close> unpacks it:
  (obs, options, rewards, next_obs, done), the flags as a tensor of zeros and ones.
\<close>

type_synonym experiences = "obs list \<times> nat list \<times> tensor \<times> obs list \<times> tensor"

section \<open>Replay buffer\<close>

text \<open>
  Modelled from the spec: the class \<^verbatim>\<open>ReplayBuffer\<close>
  (\<^verbatim>\<open>Algorithms/option_critic/replay_buffer.py\<close> is not among the sources). The
  specification describes a capacity-bounded store of transitions in arrival order.
\<close>

record buffer =
  capacity :: int
  storage :: "transition list"

text \<open>
  Modelled from the spec: the constructor \<^verbatim>\<open>ReplayBuffer(capacity)\<close> of the missing
  class; a new store holds no transition.
\<close>

definition ReplayBuffer :: "int \<Rightarrow> buffer" where
  "ReplayBuffer n = \<lparr>capacity = n, storage = []\<rparr>"

text \<open>
  Modelled from the spec: \<^verbatim>\<open>ReplayBuffer.append\<close> of the missing class; appending
  beyond the capacity evicts the oldest entries first.
\<close>

definition rb_append :: "buffer \<Rightarrow> transition \<Rightarrow> buffer" where
  "rb_append b t =
     (let s = storage b @ [t] in b\<lparr>storage := drop (length s - nat (capacity b)) s\<rparr>)"

text \<open>
  Modelled from the spec: \<^verbatim>\<open>ReplayBuffer.size\<close> of the missing class; the number of
  stored transitions.
\<close>

definition rb_size :: "buffer \<Rightarrow> int" where
  "rb_size b = int (length (storage b))"

section \<open>Collaborators\<close>

text \<open>
  The network class \<^verbatim>\<open>OptionCriticVAE\<close>, the environment, the logger, the optimizer
  class and the sampling, saving and loading of the replay buffer are not part of the
  file; they are parameters of the embedding. A forward pass is a function of the
  module's view; a call that draws random numbers takes the generator's state \<open>'r\<close> and
  returns the next one. \<open>'e\<close> is the environment object, \<open>'l\<close> the logger, \<open>'os\<close> the
  optimizer's internal state.
\<close>

datatype log_value = Num real | Count int | BoundMethod string | Lengths "(nat \<times> int list) list"

datatype 'os state_dict = ModuleState "tensor list" | OptimizerState 'os

text \<open>
  A file holds a checkpoint written by \<^verbatim>\<open>torch.save\<close> (a dictionary of state
  dictionaries) or the bytes another writer left.
\<close>

datatype 'os fcontent = TorchFile "(string \<times> 'os state_dict) list" | Bytes string

type_synonym 'os disk = "string \<rightharpoonup> 'os fcontent"

record ('e, 'l, 'r, 'os) collab =
  num_options :: nat
  new_network :: "'e \<Rightarrow> 'r \<Rightarrow> param list \<times> 'r"
  encode_state :: "net_view \<Rightarrow> obs list \<Rightarrow> matrix"
  policies :: "net_view \<Rightarrow> matrix \<Rightarrow> nat list \<Rightarrow> 'r \<Rightarrow> (action list \<times> tensor) \<times> 'r"
  get_terminations :: "net_view \<Rightarrow> obs list \<Rightarrow> matrix"
  Q1 :: "net_view \<Rightarrow> matrix \<Rightarrow> matrix"
  Q2 :: "net_view \<Rightarrow> matrix \<Rightarrow> matrix"
  get_option :: "net_view \<Rightarrow> obs \<Rightarrow> real \<Rightarrow> 'r \<Rightarrow> nat \<times> 'r"
  get_action :: "net_view \<Rightarrow> obs \<Rightarrow> nat \<Rightarrow> 'r \<Rightarrow> action \<times> 'r"
  predict_option_termination :: "net_view \<Rightarrow> obs \<Rightarrow> nat \<Rightarrow> 'r \<Rightarrow> bool \<times> 'r"
  to_tensor :: "obs \<Rightarrow> obs"
  sanitise_state_dict :: "'os state_dict \<Rightarrow> bool \<Rightarrow> 'os state_dict"
  new_optimizer_state :: "real \<Rightarrow> 'os"
  backward_step :: "'os \<Rightarrow> net_view \<Rightarrow> net_view \<Rightarrow> experiences \<Rightarrow> tensor \<Rightarrow> tensor list \<times> 'os"
  env_reset :: "'e \<Rightarrow> obs \<times> 'e"
  env_step :: "'e \<Rightarrow> action \<Rightarrow> (obs \<times> real \<times> bool) \<times> 'e"
  env_set_training :: "'e \<Rightarrow> bool \<Rightarrow> 'e"
  env_render :: "'e \<Rightarrow> string option \<Rightarrow> frame \<times> 'e"
  max_episode_steps :: "'e \<Rightarrow> int option"
  reward_threshold :: "'e \<Rightarrow> real option"
  action_high0 :: "'e \<Rightarrow> real"
  action_shape0 :: "'e \<Rightarrow> int"
  env_save :: "'e \<Rightarrow> string \<Rightarrow> 'os disk \<Rightarrow> 'os disk"
  env_load :: "'e \<Rightarrow> string \<Rightarrow> 'os disk \<Rightarrow> 'e"
  logger_store :: "'l \<Rightarrow> (string \<times> log_value) list \<Rightarrow> 'l"
  logger_load_results :: "'l \<Rightarrow> string list \<Rightarrow> real list \<times> real list"
  logger_dump :: "'l \<Rightarrow> 'l"
  logger_reset :: "'l \<Rightarrow> 'l"
  rb_sample :: "buffer \<Rightarrow> int \<Rightarrow> 'r \<Rightarrow> experiences \<times> 'r"
  rb_save :: "buffer \<Rightarrow> string \<Rightarrow> 'os disk \<Rightarrow> 'os disk"
  rb_load :: "buffer \<Rightarrow> string \<Rightarrow> 'os disk \<Rightarrow> error + buffer"
  mimsave :: "string \<Rightarrow> frame list \<Rightarrow> 'os disk \<Rightarrow> 'os disk"

section \<open>The losses of one update\<close>

text \<open>
  The tensors \<^verbatim>\<open>sac_update\<close> computes from a batch (lines 142-190), under the names the
  source gives them; \<open>utility_1\<close> and \<open>utility_2\<close> are the two values the source binds to
  \<^verbatim>\<open>utility\<close>.
\<close>

record sac_values =
  next_option_term_prob :: tensor
  next_V1_omega :: tensor
  next_Q1_omega :: tensor
  utility_1 :: tensor
  Q1_u :: tensor
  next_V2_omega :: tensor
  next_Q2_omega :: tensor
  utility_2 :: tensor
  Q2_u :: tensor
  q_pi :: tensor
  policy_loss :: real
  next_Q_omega :: tensor
  next_V_omega :: tensor
  adv :: tensor
  termination_loss :: real
  loss_pi :: real
  loss_q1 :: real
  loss_q2 :: real
  loss_q :: real
  loss :: real

text \<open>
  Lines 143 and 154-190 of \<^verbatim>\<open>sac_update\<close>: \<open>oc\<close> and \<open>oc_targ\<close> are the views of the
  model and of the target model, \<open>states\<close> and \<open>logp\<close> the results of lines 150-151.
\<close>

definition sac_losses ::
  "('e, 'l, 'r, 'os) collab \<Rightarrow> 'a config_scheme \<Rightarrow> net_view \<Rightarrow> net_view \<Rightarrow> experiences
     \<Rightarrow> matrix \<Rightarrow> tensor \<Rightarrow> sac_values option" where
  "sac_losses c self oc_v targ_v experiences states logp =
     (case experiences of (obs, options, rewards, next_obs, done) \<Rightarrow>
      do {
        let batch_idx = [0..<length options];
        term_prob \<leftarrow> index2 (get_terminations c oc_v next_obs) batch_idx options;
        let next_states = encode_state c targ_v next_obs;
        let next_Q1 = Q1 c targ_v next_states;
        V1 \<leftarrow> max_last next_Q1;
        Q1o \<leftarrow> index2 next_Q1 batch_idx options;
        keep1 \<leftarrow> t_mul (rsub 1 term_prob) Q1o;
        switch1 \<leftarrow> t_mul term_prob V1;
        u1 \<leftarrow> t_add keep1 switch1;
        boot1 \<leftarrow> t_mul (scale (rsub 1 done) (gamma self)) u1;
        Q1u \<leftarrow> t_add rewards boot1;
        let next_Q2 = Q2 c targ_v next_states;
        V2 \<leftarrow> max_last next_Q2;
        Q2o \<leftarrow> index2 next_Q2 batch_idx options;
        keep2 \<leftarrow> t_mul (rsub 1 term_prob) Q2o;
        switch2 \<leftarrow> t_mul term_prob V2;
        u2 \<leftarrow> t_add keep2 switch2;
        boot2 \<leftarrow> t_mul (scale (rsub 1 done) (gamma self)) u2;
        Q2u \<leftarrow> t_add rewards boot2;
        qpi \<leftarrow> t_min Q1u Q2u;
        pl \<leftarrow> t_sub (smul (entropy_reg self) logp) (detach qpi);
        Qo \<leftarrow> t_min Q1o Q2o;
        Vo \<leftarrow> t_min V1 V2;
        diff \<leftarrow> t_sub Qo Vo;
        let advantage = adds diff (termination_reg self);
        tl1 \<leftarrow> t_mul term_prob (detach advantage);
        tl2 \<leftarrow> t_mul tl1 (rsub 1 done);
        q1s \<leftarrow> index2 (Q1 c oc_v states) batch_idx options;
        e1 \<leftarrow> t_sub q1s (detach Q1u);
        q2s \<leftarrow> index2 (Q2 c oc_v states) batch_idx options;
        e2 \<leftarrow> t_sub q2s (detach Q2u);
        Some \<lparr>next_option_term_prob = term_prob, next_V1_omega = V1, next_Q1_omega = Q1o,
              utility_1 = u1, Q1_u = Q1u, next_V2_omega = V2, next_Q2_omega = Q2o,
              utility_2 = u2, Q2_u = Q2u, q_pi = qpi, policy_loss = mean pl,
              next_Q_omega = Qo, next_V_omega = Vo, adv = advantage,
              termination_loss = mean tl2,
              loss_pi = mean pl + mean tl2,
              loss_q1 = mean (square e1), loss_q2 = mean (square e2),
              loss_q = mean (square e1) + mean (square e2),
              loss = (mean pl + mean tl2) + (mean (square e1) + mean (square e2))\<rparr>
      })"

section \<open>Well-shaped batches\<close>

text \<open>
  Every row of the matrix \<open>m\<close> has an entry at the option chosen for it, and there is one
  row for each entry of the batch.
\<close>

definition rows_cover :: "matrix \<Rightarrow> nat list \<Rightarrow> bool" where
  "rows_cover m js = list_all2 (\<lambda>row j. j < length row) m js"

text \<open>
  The shapes of a batch of \<open>B\<close> transitions as the replay buffer samples it and the
  networks map it: the reward, flag and log-probability tensors have \<open>B\<close> entries, and the
  termination and value matrices have \<open>B\<close> rows with an entry for each option of the batch.
\<close>

definition well_shaped ::
  "('e, 'l, 'r, 'os) collab \<Rightarrow> net_view \<Rightarrow> net_view \<Rightarrow> experiences \<Rightarrow> matrix \<Rightarrow> tensor \<Rightarrow> bool" where
  "well_shaped c oc_v targ_v experiences states logp =
     (case experiences of (obs, options, rewards, next_obs, done) \<Rightarrow>
        length rewards = length options \<and> length done = length options
      \<and> length logp = length options
      \<and> rows_cover (get_terminations c oc_v next_obs) options
      \<and> rows_cover (Q1 c targ_v (encode_state c targ_v next_obs)) options
      \<and> rows_cover (Q2 c targ_v (encode_state c targ_v next_obs)) options
      \<and> rows_cover (Q1 c oc_v states) options
      \<and> rows_cover (Q2 c oc_v states) options)"

section \<open>Epsilon schedule\<close>

text \<open>
  \<^verbatim>\<open>update_epsilon(self, eps, timestep)\<close>, lines 274-276. The argument \<open>eps\<close> is
  overwritten before it is read. \<^verbatim>\<open>-timestep / self.eps_decay\<close> is Python's true
  division, which raises \<^verbatim>\<open>ZeroDivisionError\<close> on a zero divisor.
\<close>

definition update_epsilon :: "'a config_scheme \<Rightarrow> real \<Rightarrow> real \<Rightarrow> error + real" where
  "update_epsilon self eps timestep =
     (if eps_decay self = 0 then Inl ZeroDivisionError
      else Inr (eps_end self + (eps_start self - eps_end self) * exp (- timestep / eps_decay self)))"

text \<open>The default hyperparameters of \<^verbatim>\<open>__init__\<close> (lines 20-23).\<close>

definition default_config :: config where
  "default_config =
     \<lparr>replay_size = 1000000, lr = 1 / 1000, gamma = 99 / 100, eps_start = 1, eps_end = 1 / 10,
      eps_decay = 20000, batch_size = 100, update_every = 50, termination_reg = 1 / 100,
      max_ep_len = 1000, polyak = 995 / 1000, entropy_reg = 2 / 10, save_freq = 1,
      save_dir = ''runs'', ngpu = 1\<rparr>"

section \<open>The trainer\<close>

text \<open>
  The attributes of an \<^verbatim>\<open>OptionCritic\<close> object (lines 59-103), after the
  hyperparameters. \<open>best_mean_reward\<close> is a float that starts at \<^verbatim>\<open>-np.inf\<close>: \<open>None\<close>
  stands for minus infinity and the library order on \<open>option\<close> puts it below every
  \<open>Some x\<close>. The last four fields are the process state the methods act on: the store of
  parameter tensors with its next free address, the random generators and the files.
\<close>

record ('e, 'l, 'r, 'os) trainer = config +
  logger :: 'l
  env :: 'e
  act_limit :: real
  act_dim :: int
  oc :: module
  oc_targ :: module
  replay_buffer :: buffer
  optimizer :: "'os optimizer"
  best_mean_reward :: "real option"
  heap :: store
  next_addr :: addr
  rng :: 'r
  fs :: "'os disk"

text \<open>New tensors take the next free addresses of the store.\<close>

definition alloc :: "param list \<Rightarrow> store \<Rightarrow> addr \<Rightarrow> addr list \<times> store \<times> addr" where
  "alloc ps h n =
     ([n..<n + length ps],
      (\<lambda>a. if n \<le> a \<and> a < n + length ps then ps ! (a - n) else h a),
      n + length ps)"

text \<open>
  \<^verbatim>\<open>deepcopy(m)\<close>: a module of the same mode whose parameters are fresh copies.
\<close>

definition deepcopy :: "module \<Rightarrow> store \<Rightarrow> addr \<Rightarrow> module \<times> store \<times> addr" where
  "deepcopy m h n =
     (case alloc (map h (params m)) h n of
        (as, h', n') \<Rightarrow> (\<lparr>params = as, training = training m\<rparr>, h', n'))"

text \<open>
  \<^verbatim>\<open>for p in self.oc_targ.parameters(): p.requires_grad = False\<close> (lines 79-80 and
  116-117).
\<close>

definition freeze :: "addr list \<Rightarrow> store \<Rightarrow> store" where
  "freeze as h = fold (\<lambda>a h. h(a := (h a)\<lparr>requires_grad := False\<rparr>)) as h"

text \<open>
  The construction shared by \<^verbatim>\<open>__init__\<close> (lines 75-89) and \<^verbatim>\<open>reinit_network\<close>
  (lines 112-123): a new network (in training mode, as every new module), its deep copy
  as target, the target frozen, a new replay buffer, and an optimizer over
  \<^verbatim>\<open>self.oc.parameters()\<close>.
\<close>

definition build_networks ::
  "('e, 'l, 'r, 'os) collab \<Rightarrow> ('e, 'l, 'r, 'os) trainer \<Rightarrow> ('e, 'l, 'r, 'os) trainer" where
  "build_networks c self =
     (case new_network c (env self) (rng self) of (ps, r) \<Rightarrow>
      case alloc ps (heap self) (next_addr self) of (as, h1, n1) \<Rightarrow>
      let m = \<lparr>params = as, training = True\<rparr> in
      case deepcopy m h1 n1 of (m_targ, h2, n2) \<Rightarrow>
        self\<lparr>oc := m, oc_targ := m_targ,
             replay_buffer := ReplayBuffer (replay_size self),
             optimizer := \<lparr>opt_params = params m, opt_state = new_optimizer_state c (lr self)\<rparr>,
             heap := freeze (params m_targ) h2, next_addr := n2, rng := r\<rparr>)"

text \<open>
  \<^verbatim>\<open>__init__\<close>, lines 59-103. \<open>args\<close> holds the keyword arguments, \<open>lg\<close> the logger
  \<^verbatim>\<open>Logger(**logger_kwargs)\<close>, \<open>e\<close> the environment \<^verbatim>\<open>env_fn()\<close>, \<open>r\<close> the seeded
  generators and \<open>files\<close> the files at that moment. \<^verbatim>\<open>max_ep_len\<close> is the environment's
  \<^verbatim>\<open>max_episode_steps\<close> when it has one.
\<close>

definition init ::
  "('e, 'l, 'r, 'os) collab \<Rightarrow> config \<Rightarrow> 'l \<Rightarrow> 'e \<Rightarrow> 'r \<Rightarrow> 'os disk \<Rightarrow> ('e, 'l, 'r, 'os) trainer" where
  "init c args lg e r files =
     (build_networks c
        (config.extend args
           (trainer.fields lg e (action_high0 c e) (action_shape0 c e)
              \<lparr>params = [], training = True\<rparr> \<lparr>params = [], training = True\<rparr>
              (ReplayBuffer (replay_size args))
              \<lparr>opt_params = [], opt_state = new_optimizer_state c (lr args)\<rparr>
              None (\<lambda>a. \<lparr>data = [], requires_grad = False\<rparr>) 0 r files)))
       \<lparr>max_ep_len := (case max_episode_steps c e of Some n \<Rightarrow> n | None \<Rightarrow> max_ep_len args),
        best_mean_reward := None\<rparr>"

text \<open>\<^verbatim>\<open>reinit_network\<close>, lines 105-123.\<close>

definition reinit_network ::
  "('e, 'l, 'r, 'os) collab \<Rightarrow> ('e, 'l, 'r, 'os) trainer \<Rightarrow> ('e, 'l, 'r, 'os) trainer" where
  "reinit_network c self = build_networks c (self\<lparr>best_mean_reward := None\<rparr>)"

section \<open>Target network update\<close>

text \<open>
  The in-place \<^verbatim>\<open>add_\<close>: the result has the shape of the receiver, the other operand
  has the same size or size one.
\<close>

definition add_inplace :: "tensor \<Rightarrow> tensor \<Rightarrow> tensor option" where
  "add_inplace a b =
     (if length a = length b then Some (map2 (+) a b)
      else if length b = 1 then Some (map (\<lambda>x. x + hd b) a)
      else None)"

text \<open>
  The body of the loop of \<^verbatim>\<open>update_target_network\<close> (lines 130-131) for one pair
  \<open>(p, p_targ)\<close>: \<^verbatim>\<open>p_targ.data.mul_(polyak)\<close>, then
  \<^verbatim>\<open>p_targ.data.add_((1 - polyak) * p.data)\<close>, each writing the store.
\<close>

definition polyak_pair :: "real \<Rightarrow> addr \<times> addr \<Rightarrow> store \<Rightarrow> store option" where
  "polyak_pair pk pp h =
     (case pp of (p, p_targ) \<Rightarrow>
      let h1 = h(p_targ := (h p_targ)\<lparr>data := scale (data (h p_targ)) pk\<rparr>) in
      case add_inplace (data (h1 p_targ)) (smul (1 - pk) (data (h1 p))) of
        None \<Rightarrow> None
      | Some d \<Rightarrow> Some (h1(p_targ := (h1 p_targ)\<lparr>data := d\<rparr>)))"

fun polyak_pairs :: "real \<Rightarrow> (addr \<times> addr) list \<Rightarrow> store \<Rightarrow> store option" where
  "polyak_pairs pk [] h = Some h"
| "polyak_pairs pk (pp # rest) h =
     (case polyak_pair pk pp h of None \<Rightarrow> None | Some h' \<Rightarrow> polyak_pairs pk rest h')"

text \<open>\<^verbatim>\<open>update_target_network\<close>, lines 125-131.\<close>

definition update_target_network ::
  "('e, 'l, 'r, 'os) trainer \<Rightarrow> error + ('e, 'l, 'r, 'os) trainer" where
  "update_target_network self =
     (case polyak_pairs (polyak self) (zip (params (oc self)) (params (oc_targ self))) (heap self) of
        None \<Rightarrow> Inl (RuntimeError ''shape'')
      | Some h \<Rightarrow> Inr (self\<lparr>heap := h\<rparr>))"

section \<open>The update step\<close>

text \<open>
  \<^verbatim>\<open>optimizer.zero_grad(); loss.backward(); optimizer.step()\<close> (lines 189-192): the
  optimizer writes, in place, the parameters it was constructed over that have a
  gradient. A parameter that does not require gradients has none. \<open>new\<close> holds the
  entries the step computes for each of them, in order.
\<close>

definition optimizer_step :: "store \<Rightarrow> addr list \<Rightarrow> tensor list \<Rightarrow> store" where
  "optimizer_step h as new =
     fold (\<lambda>(a, d) h. if requires_grad (h a) \<and> length d = length (data (h a))
                       then h(a := (h a)\<lparr>data := d\<rparr>) else h)
          (zip as new) h"

text \<open>\<^verbatim>\<open>sac_update\<close>, lines 133-198.\<close>

definition sac_update ::
  "('e, 'l, 'r, 'os) collab \<Rightarrow> ('e, 'l, 'r, 'os) trainer \<Rightarrow> experiences
     \<Rightarrow> error + ('e, 'l, 'r, 'os) trainer" where
  "sac_update c self experiences =
     (let self1 = self\<lparr>oc := (oc self)\<lparr>training := True\<rparr>,
                        oc_targ := (oc_targ self)\<lparr>training := True\<rparr>\<rparr>;
          oc_v = view (heap self1) (oc self1);
          targ_v = view (heap self1) (oc_targ self1)
      in case experiences of (obs, options, rewards, next_obs, done) \<Rightarrow>
         let states = encode_state c oc_v obs in
         case policies c oc_v states options (rng self1) of ((pi_actions, logp), r) \<Rightarrow>
         case sac_losses c self1 oc_v targ_v experiences states logp of
           None \<Rightarrow> Inl (RuntimeError ''tensor'')
         | Some v \<Rightarrow>
            (case backward_step c (opt_state (optimizer self1)) oc_v targ_v experiences logp of
               (new, os) \<Rightarrow>
                 update_target_network
                   (self1\<lparr>heap := optimizer_step (heap self1) (opt_params (optimizer self1)) new,
                          optimizer := (optimizer self1)\<lparr>opt_state := os\<rparr>,
                          rng := r,
                          logger := logger_store c (logger self1)
                            [(''loss_q1'', Num (loss_q1 v)), (''loss_q2'', BoundMethod ''item''),
                             (''loss_q'', Num (loss_q v)), (''policy_loss'', Num (policy_loss v)),
                             (''termination_loss'', Num (termination_loss v))]\<rparr>)))"

section \<open>Checkpoints\<close>

text \<open>\<^verbatim>\<open>os.path.join(a, b)\<close> for two components, on POSIX paths.\<close>

definition path_join :: "string \<Rightarrow> string \<Rightarrow> string" where
  "path_join a b =
     (if b \<noteq> [] \<and> hd b = CHR ''/'' then b
      else if a = [] \<or> last a = CHR ''/'' then a @ b
      else a @ ''/'' @ b)"

text \<open>\<^verbatim>\<open>os.path.isfile(p)\<close>.\<close>

definition isfile :: "'os disk \<Rightarrow> string \<Rightarrow> bool" where
  "isfile files p = (files p \<noteq> None)"

text \<open>
  \<^verbatim>\<open>torch.load(path)\<close>: the dictionary \<^verbatim>\<open>torch.save\<close> wrote there; it raises on a
  missing file and on a file that is not a torch archive.
\<close>

definition torch_load :: "'os disk \<Rightarrow> string \<Rightarrow> error + (string \<times> 'os state_dict) list" where
  "torch_load files p =
     (case files p of
        None \<Rightarrow> Inl (OSError ''No such file'')
      | Some (Bytes b) \<Rightarrow> Inl (RuntimeError ''Invalid checkpoint'')
      | Some (TorchFile d) \<Rightarrow> Inr d)"

text \<open>\<^verbatim>\<open>d[key]\<close> on a dictionary.\<close>

definition getitem :: "(string \<times> 'v) list \<Rightarrow> string \<Rightarrow> error + 'v" where
  "getitem d k = (case map_of d k of None \<Rightarrow> Inl (KeyError k) | Some v \<Rightarrow> Inr v)"

text \<open>
  \<^verbatim>\<open>module.load_state_dict(sd)\<close>: copies the saved entries into the module's
  parameters, in place; it raises when the saved tensors do not match the parameters.
\<close>

definition module_load_state_dict :: "store \<Rightarrow> module \<Rightarrow> 'os state_dict \<Rightarrow> error + store" where
  "module_load_state_dict h m sd =
     (case sd of
        OptimizerState s \<Rightarrow> Inl (RuntimeError ''Missing keys'')
      | ModuleState vs \<Rightarrow>
          if list_all2 (\<lambda>a v. length (data (h a)) = length v) (params m) vs
          then Inr (fold (\<lambda>(a, v) h. h(a := (h a)\<lparr>data := v\<rparr>)) (zip (params m) vs) h)
          else Inl (RuntimeError ''Size mismatch''))"

text \<open>\<^verbatim>\<open>optimizer.load_state_dict(sd)\<close>: replaces the optimizer's internal state.\<close>

definition optimizer_load_state_dict :: "'os optimizer \<Rightarrow> 'os state_dict \<Rightarrow> error + 'os optimizer" where
  "optimizer_load_state_dict opt sd =
     (case sd of
        ModuleState vs \<Rightarrow> Inl (KeyError ''param_groups'')
      | OptimizerState s \<Rightarrow> Inr (opt\<lparr>opt_state := s\<rparr>))"

text \<open>\<^verbatim>\<open>module.state_dict()\<close>: the entries of the module's parameters.\<close>

definition module_state_dict :: "store \<Rightarrow> module \<Rightarrow> 'os state_dict" where
  "module_state_dict h m = ModuleState (map (\<lambda>a. data (h a)) (params m))"

text \<open>\<^verbatim>\<open>save_weights(best, fname)\<close>, lines 218-242; \<open>fname\<close> is \<open>None\<close> by default.\<close>

definition save_weights ::
  "('e, 'l, 'r, 'os) collab \<Rightarrow> ('e, 'l, 'r, 'os) trainer \<Rightarrow> bool \<Rightarrow> string option
     \<Rightarrow> ('e, 'l, 'r, 'os) trainer" where
  "save_weights c self best fname =
     (let fname' = (case fname of Some f \<Rightarrow> f
                    | None \<Rightarrow> if best then ''best.pth'' else ''model_weights.pth'');
          checkpoint =
            [(''oc'', module_state_dict (heap self) (oc self)),
             (''oc_target'', module_state_dict (heap self) (oc_targ self)),
             (''optimizer'', OptimizerState (opt_state (optimizer self)))];
          files1 = (fs self)(path_join (save_dir self) fname' \<mapsto> TorchFile checkpoint);
          files2 = rb_save c (replay_buffer self)
                     (path_join (save_dir self) ''replay_buffer.pickle'') files1;
          files3 = env_save c (env self) (path_join (save_dir self) ''env.json'') files2
      in self\<lparr>fs := files3\<rparr>)"

text \<open>
  A method that may raise after it has changed the object returns the exception or its
  value together with the object as it is then. \<open>attempt r self k\<close> runs \<open>k\<close> on the value
  of \<open>r\<close>, or stops at the exception of \<open>r\<close> with the object \<open>self\<close>.
\<close>

definition attempt :: "error + 'a \<Rightarrow> 's \<Rightarrow> ('a \<Rightarrow> (error + 'b) \<times> 's) \<Rightarrow> (error + 'b) \<times> 's" where
  "attempt r self k = (case r of Inl e \<Rightarrow> (Inl e, self) | Inr x \<Rightarrow> k x)"

text \<open>\<^verbatim>\<open>load_weights(best=True, load_buffer=True)\<close>, lines 244-272.\<close>

definition load_weights ::
  "('e, 'l, 'r, 'os) collab \<Rightarrow> ('e, 'l, 'r, 'os) trainer \<Rightarrow> bool \<Rightarrow> bool
     \<Rightarrow> (error + unit) \<times> ('e, 'l, 'r, 'os) trainer" where
  "load_weights c self best load_buffer =
     (let fname = (if best then ''best.pth'' else ''model_weights.pth'');
          checkpoint_path = path_join (save_dir self) fname
      in if isfile (fs self) checkpoint_path then
           attempt (if load_buffer
                    then rb_load c (replay_buffer self)
                           (path_join (save_dir self) ''replay_buffer.pickle'') (fs self)
                    else Inr (replay_buffer self)) self
           (\<lambda>rb. let self1 = self\<lparr>replay_buffer := rb\<rparr> in
            attempt (torch_load (fs self1) checkpoint_path) self1
           (\<lambda>checkpoint.
            attempt (getitem checkpoint ''oc'') self1
           (\<lambda>sd_oc.
            attempt (module_load_state_dict (heap self1) (oc self1)
                       (sanitise_state_dict c sd_oc (ngpu self1 > 1))) self1
           (\<lambda>h1. let self2 = self1\<lparr>heap := h1\<rparr> in
            attempt (getitem checkpoint ''oc_target'') self2
           (\<lambda>sd_targ.
            attempt (module_load_state_dict (heap self2) (oc_targ self2)
                       (sanitise_state_dict c sd_targ (ngpu self2 > 1))) self2
           (\<lambda>h2. let self3 = self2\<lparr>heap := h2\<rparr> in
            attempt (getitem checkpoint ''optimizer'') self3
           (\<lambda>sd_opt.
            attempt (optimizer_load_state_dict (optimizer self3)
                       (sanitise_state_dict c sd_opt (ngpu self3 > 1))) self3
           (\<lambda>opt. let self4 = self3\<lparr>optimizer := opt\<rparr>;
                      env_path = path_join (save_dir self4) ''env.json''
                  in (Inr (),
                      if isfile (fs self4) env_path
                      then self4\<lparr>env := env_load c (env self4) env_path (fs self4)\<rparr>
                      else self4)))))))))
         else (Inl (OSError ''Checkpoint file not found.''), self))"

section \<open>The training loop\<close>

text \<open>The decimal text of an integer, for \<^verbatim>\<open>f"best_{trial_num}.pth"\<close>.\<close>

fun str_nat :: "nat \<Rightarrow> string" where
  "str_nat n =
     (if n < 10 then [char_of (48 + n)] else str_nat (n div 10) @ [char_of (48 + n mod 10)])"

definition str_int :: "int \<Rightarrow> string" where
  "str_int i = (if i < 0 then ''-'' @ str_nat (nat (- i)) else str_nat (nat i))"

text \<open>
  \<^verbatim>\<open>np.mean\<close> of a sequence; on the empty sequence numpy returns NaN, written
  \<open>None\<close>, with which every comparison is false.
\<close>

definition np_mean :: "real list \<Rightarrow> real option" where
  "np_mean ys = (if ys = [] then None else Some (sum_list ys / real (length ys)))"

text \<open>
  \<^verbatim>\<open>option_lengths[k].append(x)\<close> on the dictionary
  \<^verbatim>\<open>{opt: [] for opt in range(num_options)}\<close>; a missing key raises.
\<close>

definition lengths_append ::
  "(nat \<times> int list) list \<Rightarrow> nat \<Rightarrow> int \<Rightarrow> error + (nat \<times> int list) list" where
  "lengths_append d k x =
     (case map_of d k of
        None \<Rightarrow> Inl (KeyError (str_nat k))
      | Some xs \<Rightarrow> Inr (map (\<lambda>(k', ys). if k' = k then (k', ys @ [x]) else (k', ys)) d))"

definition fresh_lengths :: "('e, 'l, 'r, 'os) collab \<Rightarrow> (nat \<times> int list) list" where
  "fresh_lengths c = map (\<lambda>opt. (opt, [])) [0..<num_options c]"

text \<open>The local variables of \<^verbatim>\<open>learn_one_trial\<close> that live across iterations.\<close>

record loop_state =
  epsilon :: real
  obs :: obs
  ep_ret :: real
  ep_len :: int
  curr_op_len :: int
  option_termination :: bool
  current_option :: nat
  episode :: int
  option_lengths :: "(nat \<times> int list) list"

text \<open>
  Lines 289-292: when the option has terminated, its length is logged and a new option
  is chosen for the observation \<open>obs\<close>. The result is the dictionary, the current option,
  \<open>curr_op_len\<close> and the generator afterwards.
\<close>

definition choose_option ::
  "('e, 'l, 'r, 'os) collab \<Rightarrow> loop_state \<Rightarrow> ('e, 'l, 'r, 'os) trainer \<Rightarrow> real
     \<Rightarrow> error + ((nat \<times> int list) list \<times> nat \<times> int \<times> 'r)" where
  "choose_option c ls self eps =
     (if option_termination ls then
        (case lengths_append (option_lengths ls) (current_option ls) (curr_op_len ls) of
           Inl e \<Rightarrow> Inl e
         | Inr lens \<Rightarrow>
            (case get_option c (view (heap self) (oc self)) (to_tensor c (obs ls)) eps (rng self) of
               (opt, r) \<Rightarrow> Inr (lens, opt, 0, r)))
      else Inr (option_lengths ls, current_option ls, curr_op_len ls, rng self))"

text \<open>The \<^verbatim>\<open>update_every\<close> consecutive updates of lines 314-316.\<close>

fun sac_updates ::
  "('e, 'l, 'r, 'os) collab \<Rightarrow> nat \<Rightarrow> ('e, 'l, 'r, 'os) trainer \<Rightarrow> error + ('e, 'l, 'r, 'os) trainer" where
  "sac_updates c 0 self = Inr self"
| "sac_updates c (Suc n) self =
     (case rb_sample c (replay_buffer self) (batch_size self) (rng self) of
        (experiences, r) \<Rightarrow>
          (case sac_update c (self\<lparr>rng := r\<rparr>) experiences of
             Inl e \<Rightarrow> Inl e
           | Inr self' \<Rightarrow> sac_updates c n self'))"

text \<open>
  Lines 313-316. \<^verbatim>\<open>and\<close> evaluates \<^verbatim>\<open>timestep % self.update_every\<close> only when the
  buffer holds a batch; the remainder by zero raises.
\<close>

definition run_updates ::
  "('e, 'l, 'r, 'os) collab \<Rightarrow> int \<Rightarrow> ('e, 'l, 'r, 'os) trainer \<Rightarrow> error + ('e, 'l, 'r, 'os) trainer" where
  "run_updates c timestep self =
     (if rb_size (replay_buffer self) \<ge> batch_size self then
        (if update_every self = 0 then Inl ZeroDivisionError
         else if timestep mod update_every self = 0
              then sac_updates c (nat (update_every self)) self
              else Inr self)
      else Inr self)"

text \<open>
  Lines 320-344, the end of an episode. The observation \<^verbatim>\<open>self.env.reset()\<close> returns
  is bound to \<^verbatim>\<open>state\<close>, which nothing reads. The first component of the result tells
  whether the method returns (line 341).
\<close>

definition end_of_episode ::
  "('e, 'l, 'r, 'os) collab \<Rightarrow> int \<Rightarrow> loop_state \<Rightarrow> ('e, 'l, 'r, 'os) trainer
     \<Rightarrow> bool \<times> loop_state \<times> ('e, 'l, 'r, 'os) trainer" where
  "end_of_episode c trial_num ls self =
     (let lg = logger_store c (logger self)
                 [(''EpRet'', Num (ep_ret ls)), (''EpLen'', Count (ep_len ls)),
                  (''OptLen'', Lengths (option_lengths ls))]
      in case env_reset c (env self) of (state, e) \<Rightarrow>
         let ls1 = ls\<lparr>ep_ret := 0, ep_len := 0, option_lengths := fresh_lengths c,
                       episode := episode ls + 1\<rparr>;
             self1 = self\<lparr>logger := lg, env := e\<rparr>
         in case logger_load_results c (logger self1) [''EpLen'', ''EpRet''] of (x, y) \<Rightarrow>
            if length x > 0 then
              let mean_reward = np_mean (drop (length y - 50) y);
                  self2 = (case mean_reward of
                             None \<Rightarrow> self1
                           | Some m \<Rightarrow>
                               if Some m > best_mean_reward self1
                               then save_weights c (self1\<lparr>best_mean_reward := Some m\<rparr>) False
                                      (Some (''best_'' @ str_int trial_num @ ''.pth''))
                               else self1)
              in if (case reward_threshold c (env self2) of
                       None \<Rightarrow> False
                     | Some thr \<Rightarrow> best_mean_reward self2 \<ge> Some thr)
                 then (True, ls1, self2)
                 else (False, ls1, self2\<lparr>logger := logger_dump c (logger self2)\<rparr>)
            else (False, ls1, self1\<lparr>logger := logger_dump c (logger self1)\<rparr>))"

text \<open>One iteration of the loop of \<^verbatim>\<open>learn_one_trial\<close>, lines 287-344.\<close>

definition trial_step ::
  "('e, 'l, 'r, 'os) collab \<Rightarrow> int \<Rightarrow> int \<Rightarrow> loop_state \<times> ('e, 'l, 'r, 'os) trainer
     \<Rightarrow> error + (bool \<times> loop_state \<times> ('e, 'l, 'r, 'os) trainer)" where
  "trial_step c trial_num timestep s =
     (case s of (ls, self) \<Rightarrow>
      case update_epsilon self (epsilon ls) (of_int timestep) of
        Inl err \<Rightarrow> Inl err
      | Inr eps \<Rightarrow>
     (case choose_option c ls self eps of
        Inl err \<Rightarrow> Inl err
      | Inr (lens, cur, col, r1) \<Rightarrow>
     (case get_action c (view (heap self) (oc self)) (to_tensor c (obs ls)) cur r1 of
        (action, r2) \<Rightarrow>
      case env_step c (env self) action of ((next_obs, reward, done), e) \<Rightarrow>
      let ep_ret' = ep_ret ls + reward;
          ep_len' = ep_len ls + 1;
          done' = (if ep_len' = max_ep_len self then False else done);
          rb = rb_append (replay_buffer self) (obs ls, cur, reward, next_obs, done')
      in case predict_option_termination c (view (heap self) (oc self))
                (to_tensor c next_obs) cur r2 of (term, r3) \<Rightarrow>
         let ls1 = \<lparr>epsilon = eps, obs = next_obs, ep_ret = ep_ret', ep_len = ep_len',
                    curr_op_len = col, option_termination = term, current_option = cur,
                    episode = episode ls, option_lengths = lens\<rparr>;
             self1 = self\<lparr>env := e, replay_buffer := rb, rng := r3\<rparr>
         in case run_updates c timestep self1 of
              Inl err \<Rightarrow> Inl err
            | Inr self2 \<Rightarrow>
                if done' \<or> ep_len' = max_ep_len self2
                then Inr (end_of_episode c trial_num ls1 self2)
                else Inr (False, ls1, self2))))"

text \<open>The loop over \<^verbatim>\<open>range(1, timesteps + 1)\<close>, left early by \<^verbatim>\<open>return\<close>.\<close>

fun learn_loop ::
  "('e, 'l, 'r, 'os) collab \<Rightarrow> int \<Rightarrow> int list \<Rightarrow> loop_state \<times> ('e, 'l, 'r, 'os) trainer
     \<Rightarrow> error + loop_state \<times> ('e, 'l, 'r, 'os) trainer" where
  "learn_loop c trial_num [] s = Inr s"
| "learn_loop c trial_num (timestep # rest) s =
     (case trial_step c trial_num timestep s of
        Inl err \<Rightarrow> Inl err
      | Inr (returned, s') \<Rightarrow> if returned then Inr s' else learn_loop c trial_num rest s')"

text \<open>The state of \<^verbatim>\<open>learn_one_trial\<close> when it enters its loop, lines 279-284.\<close>

definition trial_start ::
  "('e, 'l, 'r, 'os) collab \<Rightarrow> ('e, 'l, 'r, 'os) trainer \<Rightarrow> loop_state \<times> ('e, 'l, 'r, 'os) trainer" where
  "trial_start c self =
     (let self1 = self\<lparr>oc := (oc self)\<lparr>training := True\<rparr>,
                        oc_targ := (oc_targ self)\<lparr>training := True\<rparr>\<rparr>
      in case env_reset c (env self1) of (ob, e) \<Rightarrow>
           (\<lparr>epsilon = eps_start self1, obs = ob, ep_ret = 0, ep_len = 0, curr_op_len = 0,
             option_termination = True, current_option = 0, episode = 0,
             option_lengths = fresh_lengths c\<rparr>,
            self1\<lparr>env := e\<rparr>))"

text \<open>\<^verbatim>\<open>learn_one_trial(timesteps, trial_num)\<close>, lines 278-344.\<close>

definition learn_one_trial ::
  "('e, 'l, 'r, 'os) collab \<Rightarrow> ('e, 'l, 'r, 'os) trainer \<Rightarrow> int \<Rightarrow> int
     \<Rightarrow> error + ('e, 'l, 'r, 'os) trainer" where
  "learn_one_trial c self timesteps trial_num =
     (case learn_loop c trial_num [1..timesteps] (trial_start c self) of
        Inl err \<Rightarrow> Inl err
      | Inr (ls, self') \<Rightarrow> Inr self')"



section \<open>Evaluation and test\<close>

text \<open>
  \<^verbatim>\<open>evaluate_agent\<close>, lines 200-216. After line 207 the method reads
  \<^verbatim>\<open>self.num_test_episodes\<close>. The class has the methods \<^verbatim>\<open>__init__\<close>,
  \<^verbatim>\<open>reinit_network\<close>, \<^verbatim>\<open>update_target_network\<close>, \<^verbatim>\<open>sac_update\<close>,
  \<^verbatim>\<open>evaluate_agent\<close>, \<^verbatim>\<open>save_weights\<close>, \<^verbatim>\<open>load_weights\<close>, \<^verbatim>\<open>update_epsilon\<close>,
  \<^verbatim>\<open>learn_one_trial\<close>, \<^verbatim>\<open>learn\<close> and \<^verbatim>\<open>test\<close>, no base class, and the attributes
  lines 59-103 assign; \<^verbatim>\<open>num_test_episodes\<close> and \<^verbatim>\<open>get_action\<close> are not among
  them, so reading either raises \<^verbatim>\<open>AttributeError\<close>.
\<close>

definition evaluate_agent ::
  "('e, 'l, 'r, 'os) collab \<Rightarrow> ('e, 'l, 'r, 'os) trainer
     \<Rightarrow> (error + unit) \<times> ('e, 'l, 'r, 'os) trainer" where
  "evaluate_agent c self =
     (Inl (AttributeError ''num_test_episodes''),
      self\<lparr>env := env_set_training c (env self) False\<rparr>)"

text \<open>
  \<^verbatim>\<open>[np.array(img) for i, img in enumerate(img) if i%2 == 0]\<close>: every second frame.
\<close>

fun even_frames :: "'a list \<Rightarrow> 'a list" where
  "even_frames [] = []"
| "even_frames [x] = [x]"
| "even_frames (x # y # rest) = x # even_frames rest"

text \<open>
  \<^verbatim>\<open>test(timesteps=None, render=False, record=False)\<close>, lines 366-411. The body of
  either loop evaluates \<^verbatim>\<open>self.get_action\<close> before it steps the environment, which
  raises; the method returns only when the loop has no iteration (\<^verbatim>\<open>timesteps\<close> not
  positive, or \<^verbatim>\<open>timesteps\<close> absent and \<^verbatim>\<open>max_ep_len\<close> zero), with return and length
  zero.
\<close>

definition test ::
  "('e, 'l, 'r, 'os) collab \<Rightarrow> ('e, 'l, 'r, 'os) trainer \<Rightarrow> int option \<Rightarrow> bool \<Rightarrow> bool
     \<Rightarrow> (error + real \<times> int) \<times> ('e, 'l, 'r, 'os) trainer" where
  "test c self timesteps render record =
     (let self1 = self\<lparr>oc := (oc self)\<lparr>training := False\<rparr>,
                        oc_targ := (oc_targ self)\<lparr>training := False\<rparr>,
                        env := env_set_training c (env self) False\<rparr>;
          self2 = (if render
                   then self1\<lparr>env := snd (env_render c (env self1) (Some ''human''))\<rparr>
                   else self1)
      in case env_reset c (env self2) of (state, e) \<Rightarrow>
         let self3 = self2\<lparr>env := e\<rparr>;
             done = False;
             ep_ret = 0;
             ep_len = 0;
             recorded = (if record
                         then (case env_render c (env self3) (Some ''rgb_array'') of
                                 (picture, e') \<Rightarrow> ([picture], self3\<lparr>env := e'\<rparr>))
                         else ([], self3));
             img = fst recorded;
             self4 = snd recorded;
             enters = (case timesteps of
                         Some n \<Rightarrow> 0 < n
                       | None \<Rightarrow> \<not> (done \<or> ep_len = max_ep_len self4))
         in if enters then (Inl (AttributeError ''get_action''), self4)
            else
              let self5 = (if record
                           then self4\<lparr>fs := mimsave c (path_join (save_dir self4) ''recording.gif'')
                                                (even_frames img) (fs self4)\<rparr>
                           else self4)
              in (Inr (ep_ret, ep_len), self5\<lparr>env := env_set_training c (env self5) True\<rparr>))"

section \<open>The model and its target\<close>

text \<open>The polyak average of a target tensor \<open>t\<close> and a model tensor \<open>m\<close>, entry by entry.\<close>

definition blend :: "real \<Rightarrow> tensor \<Rightarrow> tensor \<Rightarrow> tensor" where
  "blend pk t m = map2 (\<lambda>x y. x * pk + (1 - pk) * y) t m"

text \<open>
  The target model is a separate copy of the model: its parameters are distinct objects,
  none of them a parameter of the model, and the two parameter lists match in number and
  in size, as \<^verbatim>\<open>deepcopy\<close> leaves them.
\<close>

definition paired :: "('e, 'l, 'r, 'os) trainer \<Rightarrow> bool" where
  "paired self =
     (distinct (params (oc_targ self))
      \<and> set (params (oc self)) \<inter> set (params (oc_targ self)) = {}
      \<and> list_all2 (\<lambda>p q. length (data (heap self p)) = length (data (heap self q)))
           (params (oc self)) (params (oc_targ self)))"

section \<open>A small instance\<close>

text \<open>
  A deterministic one-dimensional environment whose state counts the steps of the
  episode, with reward one at every step and episodes of one step that the environment
  reports as terminal, a network with two
  options and two parameter tensors, a generator without content and a logger that
  reports one episode of length one and return one. The closed examples below are
  computed on it.
\<close>

definition toy :: "(nat, unit, unit, unit) collab" where
  "toy =
     \<lparr>num_options = 2,
      new_network = (\<lambda>e r. ([\<lparr>data = [1, 2], requires_grad = True\<rparr>,
                              \<lparr>data = [3], requires_grad = True\<rparr>], r)),
      encode_state = (\<lambda>v batch. batch),
      policies = (\<lambda>v states options r. ((map (\<lambda>k. [0]) options, map (\<lambda>k. - 1) options), r)),
      get_terminations = (\<lambda>v batch. map (\<lambda>ob. [1 / 2, 1 / 4]) batch),
      Q1 = (\<lambda>v states. map (\<lambda>st. [sum_list st, 2]) states),
      Q2 = (\<lambda>v states. map (\<lambda>st. [3, sum_list st - 1]) states),
      get_option = (\<lambda>v ob eps r. (1, r)),
      get_action = (\<lambda>v ob opt r. ([real opt], r)),
      predict_option_termination = (\<lambda>v ob opt r. (False, r)),
      to_tensor = (\<lambda>ob. ob),
      sanitise_state_dict = (\<lambda>sd multi. sd),
      new_optimizer_state = (\<lambda>rate. ()),
      backward_step = (\<lambda>os v v' batch logp. (map (map (\<lambda>x. x - 1)) (snd v), ())),
      env_reset = (\<lambda>e. ([0], 0)),
      env_step = (\<lambda>e a. (([real (Suc e)], 1, True), Suc e)),
      env_set_training = (\<lambda>e b. e),
      env_render = (\<lambda>e mode. ([real e], e)),
      max_episode_steps = (\<lambda>e. Some 1),
      reward_threshold = (\<lambda>e. None),
      action_high0 = (\<lambda>e. 1),
      action_shape0 = (\<lambda>e. 1),
      env_save = (\<lambda>e p files. files(p \<mapsto> Bytes ''env'')),
      env_load = (\<lambda>e p files. e),
      logger_store = (\<lambda>lg entries. lg),
      logger_load_results = (\<lambda>lg keys. ([1], [1])),
      logger_dump = (\<lambda>lg. lg),
      logger_reset = (\<lambda>lg. lg),
      rb_sample = (\<lambda>b n r. (([], [], [], [], []), r)),
      rb_save = (\<lambda>b p files. files(p \<mapsto> Bytes ''buffer'')),
      rb_load = (\<lambda>b p files. Inr b),
      mimsave = (\<lambda>p frames files. files(p \<mapsto> Bytes ''gif''))\<rparr>"

text \<open>A batch of two transitions, the second one terminal.\<close>

definition toy_batch :: experiences where
  "toy_batch = ([[0], [1]], [0, 1], [1, 1], [[1], [2]], [0, 1])"

definition toy_view :: net_view where
  "toy_view = (True, [[1, 2], [3]])"

text \<open>The trainer \<^verbatim>\<open>__init__\<close> builds on the small instance, with the default arguments.\<close>

definition toy_trainer :: "(nat, unit, unit, unit) trainer" where
  "toy_trainer = init toy default_config () 0 () Map.empty"

text \<open>The same trainer after its first model parameter has moved, with \<open>polyak = 1/2\<close>.\<close>

definition toy_trained :: "(nat, unit, unit, unit) trainer" where
  "toy_trained =
     toy_trainer\<lparr>polyak := 1 / 2,
                  heap := (heap toy_trainer)(0 := \<lparr>data = [11, 22], requires_grad = True\<rparr>)\<rparr>"

text \<open>
  A store \<open>h'\<close> keeps the shape of \<open>h\<close>: every tensor has the size and the
  \<^verbatim>\<open>requires_grad\<close> flag it had.
\<close>

definition keeps :: "store \<Rightarrow> store \<Rightarrow> bool" where
  "keeps h h' = (\<forall>a. requires_grad (h' a) = requires_grad (h a)
                   \<and> length (data (h' a)) = length (data (h a)))"

text \<open>
  \<open>self'\<close> differs from \<open>self\<close> by gradient updates only: the modes of the two modules,
  the entries of tensors, the optimizer's internal state, the generators and the logger.
\<close>

definition learns :: "('e, 'l, 'r, 'os) trainer \<Rightarrow> ('e, 'l, 'r, 'os) trainer \<Rightarrow> bool" where
  "learns self self' =
     (\<exists>m1 m2 h os r lg.
        self' = self\<lparr>oc := m1, oc_targ := m2, heap := h,
                      optimizer := (optimizer self)\<lparr>opt_state := os\<rparr>, rng := r, logger := lg\<rparr>
        \<and> params m1 = params (oc self) \<and> params m2 = params (oc_targ self)
        \<and> keeps (heap self) h)"

text \<open>The small trainer at the start of a trial.\<close>

definition toy_started :: "loop_state \<times> (nat, unit, unit, unit) trainer" where
  "toy_started = trial_start toy toy_trainer"

text \<open>The result of the first iteration of the small trainer's trial.\<close>

definition toy_after_one :: "bool \<times> loop_state \<times> (nat, unit, unit, unit) trainer" where
  "toy_after_one = projr (trial_step toy 1 1 toy_started)"









section \<open>Properties\<close>

subsection \<open>Epsilon schedule\<close>

lemma exp_neg_div_tendsto_0:
  fixes d :: real
  assumes "0 < d"
  shows "((\<lambda>t. exp (- t / d)) \<longlongrightarrow> 0) at_top"
proof -
  have c: "((\<lambda>t::real. inverse d) \<longlongrightarrow> inverse d) at_top"
    by (rule tendsto_const)
  have "LIM t at_top. t * inverse d :> at_top"
    by (rule filterlim_at_top_mult_tendsto_pos [OF c _ filterlim_ident]) (simp add: assms)
  then have "LIM t at_top. - (t / d) :> at_bot"
    by (simp add: filterlim_uminus_at_bot divide_inverse)
  then have "((\<lambda>t. exp (- (t / d))) \<longlongrightarrow> 0) at_top"
    by (rule filterlim_compose [OF exp_at_bot])
  then show ?thesis by simp
qed

lemma schedule_bounds:
  fixes lo hi d t :: real
  assumes "lo \<le> hi" "0 < d" "0 \<le> t"
  shows "lo \<le> lo + (hi - lo) * exp (- t / d)" and "lo + (hi - lo) * exp (- t / d) \<le> hi"
proof -
  have e: "0 < exp (- t / d)" "exp (- t / d) \<le> 1"
    using assms by simp_all
  show "lo \<le> lo + (hi - lo) * exp (- t / d)"
    using assms e by simp
  have "(hi - lo) * exp (- t / d) \<le> (hi - lo) * 1"
    using assms e by (intro mult_left_mono) simp_all
  then show "lo + (hi - lo) * exp (- t / d) \<le> hi"
    by simp
qed

lemma schedule_antimono:
  fixes lo hi d s t :: real
  assumes "lo \<le> hi" "0 < d" "s \<le> t"
  shows "lo + (hi - lo) * exp (- t / d) \<le> lo + (hi - lo) * exp (- s / d)"
proof -
  have "- t / d \<le> - s / d"
    using assms by (simp add: divide_right_mono)
  then have "exp (- t / d) \<le> exp (- s / d)"
    by simp
  then have "(hi - lo) * exp (- t / d) \<le> (hi - lo) * exp (- s / d)"
    using assms by (intro mult_left_mono) simp_all
  then show ?thesis by simp
qed

text \<open>
  C2. With \<open>eps_start \<ge> eps_end \<ge> 0\<close> and \<open>eps_decay > 0\<close>, \<^verbatim>\<open>update_epsilon\<close> returns
  \<open>eps_end + (eps_start - eps_end) * exp(-t / eps_decay)\<close> whatever epsilon it is passed;
  at \<open>t = 0\<close> this is \<open>eps_start\<close>, for \<open>t \<ge> 0\<close> it lies in \<open>[eps_end, eps_start]\<close>, it does
  not increase with \<open>t\<close>, and it tends to \<open>eps_end\<close> as \<open>t\<close> grows without bound.
\<close>

theorem update_epsilon_schedule:
  assumes "eps_end self \<le> eps_start self" and "0 \<le> eps_end self" and "0 < eps_decay self"
  shows "(\<forall>eps t. update_epsilon self eps t =
            Inr (eps_end self + (eps_start self - eps_end self) * exp (- t / eps_decay self)))
       \<and> (\<forall>eps eps' t. update_epsilon self eps t = update_epsilon self eps' t)
       \<and> (\<forall>eps. update_epsilon self eps 0 = Inr (eps_start self))
       \<and> (\<forall>eps t. 0 \<le> t \<longrightarrow> eps_end self \<le> projr (update_epsilon self eps t)
                          \<and> projr (update_epsilon self eps t) \<le> eps_start self)
       \<and> (\<forall>eps s t. s \<le> t \<longrightarrow>
             projr (update_epsilon self eps t) \<le> projr (update_epsilon self eps s))
       \<and> (\<forall>eps. ((\<lambda>t. projr (update_epsilon self eps t)) \<longlongrightarrow> eps_end self) at_top)"
proof -
  let ?f = "\<lambda>t. eps_end self + (eps_start self - eps_end self) * exp (- t / eps_decay self)"
  have eq: "update_epsilon self eps t = Inr (?f t)" for eps t
    using assms(3) by (simp add: update_epsilon_def)
  have pr: "projr (update_epsilon self eps t) = ?f t" for eps t
    by (simp add: eq)
  have zero: "update_epsilon self eps 0 = Inr (eps_start self)" for eps
    by (simp add: eq)
  have bounds: "eps_end self \<le> ?f t \<and> ?f t \<le> eps_start self" if "0 \<le> t" for t
    using schedule_bounds [OF assms(1) assms(3) that] by simp
  have mono: "?f t \<le> ?f s" if "s \<le> t" for s t
    using schedule_antimono [OF assms(1) assms(3) that] .
  have "((\<lambda>t. eps_end self + (eps_start self - eps_end self) * exp (- t / eps_decay self))
          \<longlongrightarrow> eps_end self + (eps_start self - eps_end self) * 0) at_top"
    by (intro tendsto_add tendsto_mult tendsto_const exp_neg_div_tendsto_0 assms(3))
  then have lim: "(?f \<longlongrightarrow> eps_end self) at_top"
    by simp
  show ?thesis
    unfolding pr using eq zero bounds mono lim by simp
qed

theorem update_epsilon_schedule_witness:
  "eps_end default_config \<le> eps_start default_config
   \<and> 0 \<le> eps_end default_config
   \<and> 0 < eps_decay default_config
   \<and> update_epsilon default_config (1 / 2) 0 = Inr 1
   \<and> update_epsilon default_config 0 20000 = Inr (1 / 10 + 9 / 10 * exp (- 1))
   \<and> projr (update_epsilon default_config 1 20000) \<le> projr (update_epsilon default_config 1 1)"
proof -
  have h: "eps_end default_config \<le> eps_start default_config" "0 \<le> eps_end default_config"
    "0 < eps_decay default_config"
    by (simp_all add: default_config_def)
  note th = update_epsilon_schedule [OF h]
  have a: "update_epsilon default_config (1 / 2) 0 = Inr 1"
    using th by (simp add: default_config_def)
  have b: "update_epsilon default_config 0 20000 = Inr (1 / 10 + 9 / 10 * exp (- 1))"
    using th by (simp add: default_config_def)
  have "\<forall>eps s t. s \<le> t \<longrightarrow>
      projr (update_epsilon default_config eps t) \<le> projr (update_epsilon default_config eps s)"
    using th by (elim conjE)
  from this [rule_format, of 1 20000 1]
  have c: "projr (update_epsilon default_config 1 20000) \<le> projr (update_epsilon default_config 1 1)"
    by simp
  show ?thesis using h a b c by simp
qed

subsection \<open>The losses on a well-shaped batch\<close>

lemma those_map_all:
  "(\<And>x. x \<in> set xs \<Longrightarrow> f x = Some (g x)) \<Longrightarrow> those (map f xs) = Some (map g xs)"
  by (induction xs) simp_all

lemma broadcast_same: "length a = length b \<Longrightarrow> broadcast f a b = Some (map2 f a b)"
  by (simp add: broadcast_def)

lemma rows_cover_length: "rows_cover m js \<Longrightarrow> length m = length js"
  by (simp add: rows_cover_def list_all2_lengthD)

lemma rows_cover_nth: "rows_cover m js \<Longrightarrow> k < length js \<Longrightarrow> js ! k < length (m ! k)"
  by (simp add: rows_cover_def list_all2_conv_all_nth)

lemma rows_cover_nonempty: "rows_cover m js \<Longrightarrow> \<forall>row\<in>set m. row \<noteq> []"
  unfolding rows_cover_def
  by (induction m js rule: list_all2_induct) auto

lemma index2_rows:
  assumes "rows_cover m js"
  shows "index2 m [0..<length js] js = Some (map2 (\<lambda>row j. row ! j) m js)"
proof -
  have len: "length m = length js"
    using assms by (rule rows_cover_length)
  have ok: "\<And>k. k < length js \<Longrightarrow> js ! k < length (m ! k)"
    using assms by (rule rows_cover_nth)
  have "those (map (\<lambda>(i, j). if i < length m \<and> j < length (m ! i) then Some (m ! i ! j) else None)
           (zip [0..<length js] js))
      = Some (map (\<lambda>(i, j). m ! i ! j) (zip [0..<length js] js))"
  proof (rule those_map_all)
    fix x assume "x \<in> set (zip [0..<length js] js)"
    then obtain k where "k < length js" "x = (k, js ! k)"
      by (auto simp: set_zip)
    then show "(case x of (i, j) \<Rightarrow> if i < length m \<and> j < length (m ! i) then Some (m ! i ! j) else None)
        = Some (case x of (i, j) \<Rightarrow> m ! i ! j)"
      by (simp add: len ok)
  qed
  moreover have "map (\<lambda>(i, j). m ! i ! j) (zip [0..<length js] js) = map2 (\<lambda>row j. row ! j) m js"
    by (rule nth_equalityI) (simp_all add: len)
  ultimately show ?thesis
    by (simp add: index2_def)
qed

lemma max_last_cover:
  assumes "rows_cover m js"
  shows "max_last m = Some (map (\<lambda>row. Max (set row)) m)"
  unfolding max_last_def using rows_cover_nonempty [OF assms] by (intro those_map_all) simp

lemma sac_losses_fields:
  assumes "well_shaped c oc_v targ_v (ob, options, rewards, next_ob, done) states logp"
  shows "\<exists>v. sac_losses c self oc_v targ_v (ob, options, rewards, next_ob, done) states logp = Some v
    \<and> next_option_term_prob v = map2 (\<lambda>row j. row ! j) (get_terminations c oc_v next_ob) options
    \<and> next_Q1_omega v = map2 (\<lambda>row j. row ! j) (Q1 c targ_v (encode_state c targ_v next_ob)) options
    \<and> next_V1_omega v = map (\<lambda>row. Max (set row)) (Q1 c targ_v (encode_state c targ_v next_ob))
    \<and> next_Q2_omega v = map2 (\<lambda>row j. row ! j) (Q2 c targ_v (encode_state c targ_v next_ob)) options
    \<and> next_V2_omega v = map (\<lambda>row. Max (set row)) (Q2 c targ_v (encode_state c targ_v next_ob))
    \<and> utility_1 v = map2 (+) (map2 (*) (rsub 1 (next_option_term_prob v)) (next_Q1_omega v))
                               (map2 (*) (next_option_term_prob v) (next_V1_omega v))
    \<and> utility_2 v = map2 (+) (map2 (*) (rsub 1 (next_option_term_prob v)) (next_Q2_omega v))
                               (map2 (*) (next_option_term_prob v) (next_V2_omega v))
    \<and> Q1_u v = map2 (+) rewards (map2 (*) (scale (rsub 1 done) (gamma self)) (utility_1 v))
    \<and> Q2_u v = map2 (+) rewards (map2 (*) (scale (rsub 1 done) (gamma self)) (utility_2 v))
    \<and> q_pi v = map2 min (Q1_u v) (Q2_u v)
    \<and> adv v = adds (map2 (-) (map2 min (next_Q1_omega v) (next_Q2_omega v))
                              (map2 min (next_V1_omega v) (next_V2_omega v))) (termination_reg self)
    \<and> termination_loss v =
         mean (map2 (*) (map2 (*) (next_option_term_prob v) (detach (adv v))) (rsub 1 done))"
proof -
  from assms have r: "length rewards = length options" "length done = length options"
      "length logp = length options"
    and t: "rows_cover (get_terminations c oc_v next_ob) options"
    and q1: "rows_cover (Q1 c targ_v (encode_state c targ_v next_ob)) options"
    and q2: "rows_cover (Q2 c targ_v (encode_state c targ_v next_ob)) options"
    and p1: "rows_cover (Q1 c oc_v states) options"
    and p2: "rows_cover (Q2 c oc_v states) options"
    by (simp_all add: well_shaped_def)
  note l = rows_cover_length [OF t] rows_cover_length [OF q1] rows_cover_length [OF q2]
    rows_cover_length [OF p1] rows_cover_length [OF p2]
  note ix = index2_rows [OF t] index2_rows [OF q1] index2_rows [OF q2]
    index2_rows [OF p1] index2_rows [OF p2]
  note m = max_last_cover [OF q1] max_last_cover [OF q2]
  show ?thesis
    by (simp add: sac_losses_def Let_def ix m r l
        t_add_def t_mul_def t_sub_def t_min_def broadcast_same rsub_def scale_def smul_def adds_def detach_def)
qed

lemma sac_losses_lengths:
  assumes "well_shaped c oc_v targ_v (ob, options, rewards, next_ob, done) states logp"
    and "sac_losses c self oc_v targ_v (ob, options, rewards, next_ob, done) states logp = Some v"
  shows "length (next_option_term_prob v) = length options"
    and "length (next_Q1_omega v) = length options" and "length (next_V1_omega v) = length options"
    and "length (next_Q2_omega v) = length options" and "length (next_V2_omega v) = length options"
    and "length (utility_1 v) = length options" and "length (utility_2 v) = length options"
    and "length (Q1_u v) = length options" and "length (Q2_u v) = length options"
    and "length (q_pi v) = length options" and "length (adv v) = length options"
proof -
  from assms(1) have r: "length rewards = length options" "length done = length options"
    and t: "rows_cover (get_terminations c oc_v next_ob) options"
    and q1: "rows_cover (Q1 c targ_v (encode_state c targ_v next_ob)) options"
    and q2: "rows_cover (Q2 c targ_v (encode_state c targ_v next_ob)) options"
    by (simp_all add: well_shaped_def)
  note l = rows_cover_length [OF t] rows_cover_length [OF q1] rows_cover_length [OF q2]
  from sac_losses_fields [OF assms(1), of self] assms(2)
  have f: "next_option_term_prob v = map2 (\<lambda>row j. row ! j) (get_terminations c oc_v next_ob) options"
    "next_Q1_omega v = map2 (\<lambda>row j. row ! j) (Q1 c targ_v (encode_state c targ_v next_ob)) options"
    "next_V1_omega v = map (\<lambda>row. Max (set row)) (Q1 c targ_v (encode_state c targ_v next_ob))"
    "next_Q2_omega v = map2 (\<lambda>row j. row ! j) (Q2 c targ_v (encode_state c targ_v next_ob)) options"
    "next_V2_omega v = map (\<lambda>row. Max (set row)) (Q2 c targ_v (encode_state c targ_v next_ob))"
    "utility_1 v = map2 (+) (map2 (*) (rsub 1 (next_option_term_prob v)) (next_Q1_omega v))
                               (map2 (*) (next_option_term_prob v) (next_V1_omega v))"
    "utility_2 v = map2 (+) (map2 (*) (rsub 1 (next_option_term_prob v)) (next_Q2_omega v))
                               (map2 (*) (next_option_term_prob v) (next_V2_omega v))"
    "Q1_u v = map2 (+) rewards (map2 (*) (scale (rsub 1 done) (gamma self)) (utility_1 v))"
    "Q2_u v = map2 (+) rewards (map2 (*) (scale (rsub 1 done) (gamma self)) (utility_2 v))"
    "q_pi v = map2 min (Q1_u v) (Q2_u v)"
    "adv v = adds (map2 (-) (map2 min (next_Q1_omega v) (next_Q2_omega v))
                              (map2 min (next_V1_omega v) (next_V2_omega v))) (termination_reg self)"
    by auto
  show a: "length (next_option_term_prob v) = length options"
    and b: "length (next_Q1_omega v) = length options" and c: "length (next_V1_omega v) = length options"
    and d: "length (next_Q2_omega v) = length options" and e: "length (next_V2_omega v) = length options"
    by (simp_all add: f(1-5) l)
  show u1: "length (utility_1 v) = length options" and u2: "length (utility_2 v) = length options"
    by (simp_all add: f(6,7) a b c d e rsub_def)
  show g1: "length (Q1_u v) = length options" and g2: "length (Q2_u v) = length options"
    by (simp_all add: f(8,9) u1 u2 r rsub_def scale_def)
  show "length (q_pi v) = length options"
    by (simp add: f(10) g1 g2)
  show "length (adv v) = length options"
    by (simp add: f(11) adds_def b c d e)
qed

lemma sac_entries:
  assumes ws: "well_shaped c oc_v targ_v (ob, options, rewards, next_ob, done) states logp"
    and some: "sac_losses c self oc_v targ_v (ob, options, rewards, next_ob, done) states logp = Some v"
    and k: "k < length options"
  shows "next_option_term_prob v ! k = get_terminations c oc_v next_ob ! k ! (options ! k)"
    and "next_Q1_omega v ! k = Q1 c targ_v (encode_state c targ_v next_ob) ! k ! (options ! k)"
    and "next_V1_omega v ! k = Max (set (Q1 c targ_v (encode_state c targ_v next_ob) ! k))"
    and "next_Q2_omega v ! k = Q2 c targ_v (encode_state c targ_v next_ob) ! k ! (options ! k)"
    and "next_V2_omega v ! k = Max (set (Q2 c targ_v (encode_state c targ_v next_ob) ! k))"
    and "utility_1 v ! k = (1 - next_option_term_prob v ! k) * next_Q1_omega v ! k
                           + next_option_term_prob v ! k * next_V1_omega v ! k"
    and "utility_2 v ! k = (1 - next_option_term_prob v ! k) * next_Q2_omega v ! k
                           + next_option_term_prob v ! k * next_V2_omega v ! k"
    and "Q1_u v ! k = rewards ! k + (1 - done ! k) * gamma self * utility_1 v ! k"
    and "Q2_u v ! k = rewards ! k + (1 - done ! k) * gamma self * utility_2 v ! k"
    and "q_pi v ! k = min (Q1_u v ! k) (Q2_u v ! k)"
    and "adv v ! k = min (next_Q1_omega v ! k) (next_Q2_omega v ! k)
                     - min (next_V1_omega v ! k) (next_V2_omega v ! k) + termination_reg self"
proof -
  from ws have r: "length rewards = length options" "length done = length options"
    and t: "rows_cover (get_terminations c oc_v next_ob) options"
    and q1: "rows_cover (Q1 c targ_v (encode_state c targ_v next_ob)) options"
    and q2: "rows_cover (Q2 c targ_v (encode_state c targ_v next_ob)) options"
    by (simp_all add: well_shaped_def)
  note l = rows_cover_length [OF t] rows_cover_length [OF q1] rows_cover_length [OF q2]
  note n = sac_losses_lengths [OF ws some]
  from sac_losses_fields [OF ws, of self] some
  have f: "next_option_term_prob v = map2 (\<lambda>row j. row ! j) (get_terminations c oc_v next_ob) options"
    "next_Q1_omega v = map2 (\<lambda>row j. row ! j) (Q1 c targ_v (encode_state c targ_v next_ob)) options"
    "next_V1_omega v = map (\<lambda>row. Max (set row)) (Q1 c targ_v (encode_state c targ_v next_ob))"
    "next_Q2_omega v = map2 (\<lambda>row j. row ! j) (Q2 c targ_v (encode_state c targ_v next_ob)) options"
    "next_V2_omega v = map (\<lambda>row. Max (set row)) (Q2 c targ_v (encode_state c targ_v next_ob))"
    "utility_1 v = map2 (+) (map2 (*) (rsub 1 (next_option_term_prob v)) (next_Q1_omega v))
                               (map2 (*) (next_option_term_prob v) (next_V1_omega v))"
    "utility_2 v = map2 (+) (map2 (*) (rsub 1 (next_option_term_prob v)) (next_Q2_omega v))
                               (map2 (*) (next_option_term_prob v) (next_V2_omega v))"
    "Q1_u v = map2 (+) rewards (map2 (*) (scale (rsub 1 done) (gamma self)) (utility_1 v))"
    "Q2_u v = map2 (+) rewards (map2 (*) (scale (rsub 1 done) (gamma self)) (utility_2 v))"
    "q_pi v = map2 min (Q1_u v) (Q2_u v)"
    "adv v = adds (map2 (-) (map2 min (next_Q1_omega v) (next_Q2_omega v))
                              (map2 min (next_V1_omega v) (next_V2_omega v))) (termination_reg self)"
    by auto
  show "next_option_term_prob v ! k = get_terminations c oc_v next_ob ! k ! (options ! k)"
    by (simp add: f(1) l k)
  show "next_Q1_omega v ! k = Q1 c targ_v (encode_state c targ_v next_ob) ! k ! (options ! k)"
    by (simp add: f(2) l k)
  show "next_V1_omega v ! k = Max (set (Q1 c targ_v (encode_state c targ_v next_ob) ! k))"
    by (simp add: f(3) l k)
  show "next_Q2_omega v ! k = Q2 c targ_v (encode_state c targ_v next_ob) ! k ! (options ! k)"
    by (simp add: f(4) l k)
  show "next_V2_omega v ! k = Max (set (Q2 c targ_v (encode_state c targ_v next_ob) ! k))"
    by (simp add: f(5) l k)
  show "utility_1 v ! k = (1 - next_option_term_prob v ! k) * next_Q1_omega v ! k
                           + next_option_term_prob v ! k * next_V1_omega v ! k"
    by (subst f(6)) (simp add: n k rsub_def)
  show "utility_2 v ! k = (1 - next_option_term_prob v ! k) * next_Q2_omega v ! k
                           + next_option_term_prob v ! k * next_V2_omega v ! k"
    by (subst f(7)) (simp add: n k rsub_def)
  show "Q1_u v ! k = rewards ! k + (1 - done ! k) * gamma self * utility_1 v ! k"
    by (subst f(8)) (simp add: n r k rsub_def scale_def)
  show "Q2_u v ! k = rewards ! k + (1 - done ! k) * gamma self * utility_2 v ! k"
    by (subst f(9)) (simp add: n r k rsub_def scale_def)
  show "q_pi v ! k = min (Q1_u v ! k) (Q2_u v ! k)"
    by (subst f(10)) (simp add: n k)
  show "adv v ! k = min (next_Q1_omega v ! k) (next_Q2_omega v ! k)
                     - min (next_V1_omega v ! k) (next_V2_omega v ! k) + termination_reg self"
    by (subst f(11)) (simp add: n k adds_def)
qed

lemma sac_losses_defined:
  assumes "well_shaped c oc_v targ_v (ob, options, rewards, next_ob, done) states logp"
  shows "\<exists>v. sac_losses c self oc_v targ_v (ob, options, rewards, next_ob, done) states logp = Some v"
  using sac_losses_fields [OF assms, of self] by blast

text \<open>
  C4. On every well-shaped batch \<^verbatim>\<open>sac_update\<close> computes its tensors, \<open>Q1_u\<close> and \<open>Q2_u\<close>
  are the bootstrap targets of the two critics, and \<open>q_pi\<close> is their elementwise
  minimum, hence at most either of them at every entry of the batch.
\<close>

theorem double_q_minimum:
  assumes "well_shaped c oc_v targ_v (ob, options, rewards, next_ob, done) states logp"
  shows "\<exists>v. sac_losses c self oc_v targ_v (ob, options, rewards, next_ob, done) states logp = Some v
    \<and> length (q_pi v) = length options
    \<and> (\<forall>k<length options.
          Q1_u v ! k = rewards ! k + (1 - done ! k) * gamma self * utility_1 v ! k
        \<and> Q2_u v ! k = rewards ! k + (1 - done ! k) * gamma self * utility_2 v ! k
        \<and> q_pi v ! k = min (Q1_u v ! k) (Q2_u v ! k)
        \<and> q_pi v ! k \<le> Q1_u v ! k \<and> q_pi v ! k \<le> Q2_u v ! k)"
proof -
  from sac_losses_defined [OF assms, of self] obtain v
    where v: "sac_losses c self oc_v targ_v (ob, options, rewards, next_ob, done) states logp = Some v"
    by blast
  have "length (q_pi v) = length options"
    by (rule sac_losses_lengths [OF assms v])
  moreover have "Q1_u v ! k = rewards ! k + (1 - done ! k) * gamma self * utility_1 v ! k
        \<and> Q2_u v ! k = rewards ! k + (1 - done ! k) * gamma self * utility_2 v ! k
        \<and> q_pi v ! k = min (Q1_u v ! k) (Q2_u v ! k)
        \<and> q_pi v ! k \<le> Q1_u v ! k \<and> q_pi v ! k \<le> Q2_u v ! k" if "k < length options" for k
    using sac_entries(8-10) [OF assms v that] by simp
  ultimately show ?thesis
    using v by blast
qed

lemma toy_well_shaped: "well_shaped toy toy_view toy_view toy_batch [[0], [1]] [- 1, - 1]"
  by (simp add: well_shaped_def toy_batch_def toy_def rows_cover_def)

lemma toy_losses:
  "sac_losses toy default_config toy_view toy_view toy_batch [[0], [1]] [- 1, - 1] =
   Some \<lparr>next_option_term_prob = [1 / 2, 1 / 4], next_V1_omega = [2, 2],
     next_Q1_omega = [1, 2], utility_1 = [3 / 2, 2], Q1_u = [497 / 200, 1],
     next_V2_omega = [3, 3], next_Q2_omega = [3, 1], utility_2 = [3, 3 / 2],
     Q2_u = [397 / 100, 1], q_pi = [497 / 200, 1],
     policy_loss = - (777 / 400), next_Q_omega = [1, 1],
     next_V_omega = [2, 2], adv = [- (99 / 100), - (99 / 100)],
     termination_loss = - (99 / 400), loss_pi = - (219 / 100),
     loss_q1 = 287009 / 80000, loss_q2 = 19409 / 20000,
     loss_q = 72929 / 16000, loss = 37889 / 16000\<rparr>"
  by (simp add: sac_losses_def toy_batch_def toy_def Let_def index2_def max_last_def
      t_add_def t_mul_def t_sub_def t_min_def broadcast_def rsub_def scale_def smul_def adds_def
      detach_def default_config_def mean_def square_def upt_rec power2_eq_square)

theorem double_q_minimum_witness:
  "well_shaped toy toy_view toy_view toy_batch [[0], [1]] [- 1, - 1]
   \<and> Q1_u (the (sac_losses toy default_config toy_view toy_view toy_batch [[0], [1]] [- 1, - 1]))
       = [497 / 200, 1]
   \<and> Q2_u (the (sac_losses toy default_config toy_view toy_view toy_batch [[0], [1]] [- 1, - 1]))
       = [397 / 100, 1]
   \<and> q_pi (the (sac_losses toy default_config toy_view toy_view toy_batch [[0], [1]] [- 1, - 1])) ! 0
       \<le> Q2_u (the (sac_losses toy default_config toy_view toy_view toy_batch [[0], [1]] [- 1, - 1])) ! 0
   \<and> q_pi (the (sac_losses toy default_config toy_view toy_view toy_batch [[0], [1]] [- 1, - 1])) ! 0
       = min (497 / 200) (397 / 100)"
proof -
  have ws: "well_shaped toy toy_view toy_view ([[0], [1]], [0, 1], [1, 1], [[1], [2]], [0, 1])
      [[0], [1]] [- 1, - 1]"
    using toy_well_shaped by (simp add: toy_batch_def)
  from double_q_minimum [OF ws, of default_config] obtain v where
    v: "sac_losses toy default_config toy_view toy_view toy_batch [[0], [1]] [- 1, - 1] = Some v"
    and m: "q_pi v ! 0 = min (Q1_u v ! 0) (Q2_u v ! 0)" "q_pi v ! 0 \<le> Q2_u v ! 0"
    by (auto simp: toy_batch_def)
  have e: "Q1_u v = [497 / 200, 1]" "Q2_u v = [397 / 100, 1]"
    using v toy_losses by auto
  show ?thesis
    using toy_well_shaped v m e by simp
qed

lemma map2_mult3_nth:
  fixes a b d :: "real list"
  assumes "length a = n" "length b = n" "length d = n"
  shows "map2 (*) (map2 (*) a b) d = map (\<lambda>k. a ! k * b ! k * d ! k) [0..<n]"
  using assms by (intro nth_equalityI) simp_all

text \<open>
  C5. On every well-shaped batch with at least one transition, the advantage is
  \<open>min(Q1'_omega, Q2'_omega) - min(V1'_omega, V2'_omega) + termination_reg\<close> at every
  entry, the constant being part of the tensor that is detached, and the termination
  loss is the mean over the batch of
  \<open>beta(next_obs, option) * detach(adv) * (1 - terminal)\<close>.
\<close>

theorem termination_loss_mean:
  assumes "well_shaped c oc_v targ_v (ob, options, rewards, next_ob, done) states logp"
    and "options \<noteq> []"
  shows "\<exists>v. sac_losses c self oc_v targ_v (ob, options, rewards, next_ob, done) states logp = Some v
    \<and> (\<forall>k<length options.
          adv v ! k =
            min (Q1 c targ_v (encode_state c targ_v next_ob) ! k ! (options ! k))
                (Q2 c targ_v (encode_state c targ_v next_ob) ! k ! (options ! k))
            - min (Max (set (Q1 c targ_v (encode_state c targ_v next_ob) ! k)))
                  (Max (set (Q2 c targ_v (encode_state c targ_v next_ob) ! k)))
            + termination_reg self)
    \<and> termination_loss v =
        mean (map (\<lambda>k. get_terminations c oc_v next_ob ! k ! (options ! k)
                        * detach (adv v) ! k * (1 - done ! k)) [0..<length options])"
proof -
  note ws = assms(1)
  from sac_losses_fields [OF ws, of self] obtain v
    where v: "sac_losses c self oc_v targ_v (ob, options, rewards, next_ob, done) states logp = Some v"
      and tl: "termination_loss v =
         mean (map2 (*) (map2 (*) (next_option_term_prob v) (detach (adv v))) (rsub 1 done))"
    by blast
  note n = sac_losses_lengths [OF ws v]
  from ws have d: "length done = length options"
    by (simp add: well_shaped_def)
  have a: "adv v ! k =
            min (Q1 c targ_v (encode_state c targ_v next_ob) ! k ! (options ! k))
                (Q2 c targ_v (encode_state c targ_v next_ob) ! k ! (options ! k))
            - min (Max (set (Q1 c targ_v (encode_state c targ_v next_ob) ! k)))
                  (Max (set (Q2 c targ_v (encode_state c targ_v next_ob) ! k)))
            + termination_reg self" if "k < length options" for k
    using sac_entries(2-5,11) [OF ws v that] by simp
  have "map2 (*) (map2 (*) (next_option_term_prob v) (detach (adv v))) (rsub 1 done)
      = map (\<lambda>k. next_option_term_prob v ! k * detach (adv v) ! k * rsub 1 done ! k)
          [0..<length options]"
    by (rule map2_mult3_nth) (simp_all add: n d detach_def rsub_def)
  also have "\<dots> = map (\<lambda>k. get_terminations c oc_v next_ob ! k ! (options ! k)
                        * detach (adv v) ! k * (1 - done ! k)) [0..<length options]"
    using sac_entries(1) [OF ws v] by (simp add: rsub_def d)
  finally have "termination_loss v =
        mean (map (\<lambda>k. get_terminations c oc_v next_ob ! k ! (options ! k)
                        * detach (adv v) ! k * (1 - done ! k)) [0..<length options])"
    using tl by simp
  with v a show ?thesis by blast
qed

theorem termination_loss_mean_witness:
  "well_shaped toy toy_view toy_view toy_batch [[0], [1]] [- 1, - 1]
   \<and> adv (the (sac_losses toy default_config toy_view toy_view toy_batch [[0], [1]] [- 1, - 1]))
       = [- (99 / 100), - (99 / 100)]
   \<and> termination_loss (the (sac_losses toy default_config toy_view toy_view toy_batch [[0], [1]] [- 1, - 1]))
       = mean [1 / 2 * - (99 / 100) * (1 - 0), 1 / 4 * - (99 / 100) * (1 - 1)]"
proof -
  have ws: "well_shaped toy toy_view toy_view ([[0], [1]], [0, 1], [1, 1], [[1], [2]], [0, 1])
      [[0], [1]] [- 1, - 1]"
    using toy_well_shaped by (simp add: toy_batch_def)
  have ne: "[0, 1 :: nat] \<noteq> []" by simp
  from termination_loss_mean [OF ws ne, of default_config] obtain v where
    v: "sac_losses toy default_config toy_view toy_view toy_batch [[0], [1]] [- 1, - 1] = Some v"
    and m: "termination_loss v =
        mean (map (\<lambda>k. get_terminations toy toy_view [[1], [2]] ! k ! ([0, 1] ! k)
                        * detach (adv v) ! k * (1 - [0, 1] ! k)) [0..<length [0 :: nat, 1]])"
    by (auto simp: toy_batch_def)
  have e: "adv v = [- (99 / 100), - (99 / 100)]"
    using v toy_losses by auto
  have "termination_loss v = mean [1 / 2 * - (99 / 100) * (1 - 0), 1 / 4 * - (99 / 100) * (1 - 1)]"
    unfolding m e by (simp add: toy_def detach_def upt_rec)
  then show ?thesis
    using toy_well_shaped v e by simp
qed

subsection \<open>Target network update\<close>

lemma polyak_pair_blend:
  assumes "p \<noteq> q" "length (data (h p)) = length (data (h q))"
  shows "polyak_pair pk (p, q) h = Some (h(q := (h q)\<lparr>data := blend pk (data (h q)) (data (h p))\<rparr>))"
proof -
  have "map2 (+) (scale (data (h q)) pk) (smul (1 - pk) (data (h p))) = blend pk (data (h q)) (data (h p))"
    using assms(2) by (intro nth_equalityI) (simp_all add: scale_def smul_def blend_def)
  then show ?thesis
    using assms by (simp add: polyak_pair_def Let_def add_inplace_def scale_def smul_def)
qed

lemma polyak_pairs_blend:
  assumes "distinct (map snd pps)"
    and "set (map fst pps) \<inter> set (map snd pps) = {}"
    and "\<forall>(p, q)\<in>set pps. length (data (h p)) = length (data (h q))"
  shows "\<exists>h'. polyak_pairs pk pps h = Some h'
     \<and> (\<forall>a. a \<notin> set (map snd pps) \<longrightarrow> h' a = h a)
     \<and> (\<forall>(p, q)\<in>set pps. h' q = (h q)\<lparr>data := blend pk (data (h q)) (data (h p))\<rparr>)"
  using assms
proof (induction pps arbitrary: h)
  case Nil
  then show ?case by simp
next
  case (Cons pp pps)
  obtain p q where pp: "pp = (p, q)" by (cases pp)
  let ?h1 = "h(q := (h q)\<lparr>data := blend pk (data (h q)) (data (h p))\<rparr>)"
  from Cons.prems pp have pq: "p \<noteq> q" and len: "length (data (h p)) = length (data (h q))"
    by auto
  have step: "polyak_pair pk pp h = Some ?h1"
    unfolding pp by (rule polyak_pair_blend [OF pq len])
  from Cons.prems pp have q1: "q \<notin> set (map snd pps)" and q2: "q \<notin> set (map fst pps)"
    by auto
  have same: "?h1 a = h a" if "a \<in> set (map fst pps) \<union> set (map snd pps)" for a
    using that q1 q2 by auto
  have d: "distinct (map snd pps)" and i: "set (map fst pps) \<inter> set (map snd pps) = {}"
    using Cons.prems by auto
  have l: "\<forall>(p', q')\<in>set pps. length (data (?h1 p')) = length (data (?h1 q'))"
  proof clarify
    fix p' q' assume m: "(p', q') \<in> set pps"
    then have "p' \<in> set (map fst pps)" "q' \<in> set (map snd pps)"
      by force+
    then have "?h1 p' = h p'" "?h1 q' = h q'"
      using same by blast+
    moreover have "length (data (h p')) = length (data (h q'))"
      using Cons.prems(3) m by auto
    ultimately show "length (data (?h1 p')) = length (data (?h1 q'))"
      by simp
  qed
  from Cons.IH [OF d i l] obtain h' where
    r: "polyak_pairs pk pps ?h1 = Some h'"
    and out: "\<forall>a. a \<notin> set (map snd pps) \<longrightarrow> h' a = ?h1 a"
    and inn: "\<forall>(p', q')\<in>set pps. h' q' = (?h1 q')\<lparr>data := blend pk (data (?h1 q')) (data (?h1 p'))\<rparr>"
    by blast
  have 1: "polyak_pairs pk (pp # pps) h = Some h'"
    using step r by simp
  have 2: "\<forall>a. a \<notin> set (map snd (pp # pps)) \<longrightarrow> h' a = h a"
    using out pp by auto
  have 3: "\<forall>(p', q')\<in>set (pp # pps). h' q' = (h q')\<lparr>data := blend pk (data (h q')) (data (h p'))\<rparr>"
  proof clarify
    fix p' q' assume m: "(p', q') \<in> set (pp # pps)"
    show "h' q' = (h q')\<lparr>data := blend pk (data (h q')) (data (h p'))\<rparr>"
    proof (cases "(p', q') = (p, q)")
      case True
      then show ?thesis using out q1 by simp
    next
      case False
      with m pp have m': "(p', q') \<in> set pps" by auto
      then have "p' \<in> set (map fst pps)" "q' \<in> set (map snd pps)"
        by force+
      then have "?h1 p' = h p'" "?h1 q' = h q'"
        using same by blast+
      then show ?thesis using inn m' by auto
    qed
  qed
  from 1 2 3 show ?case by blast
qed

lemma alloc_simps:
  "fst (alloc ps h n) = [n..<n + length ps]"
  "fst (snd (alloc ps h n)) a = (if n \<le> a \<and> a < n + length ps then ps ! (a - n) else h a)"
  "snd (snd (alloc ps h n)) = n + length ps"
  by (simp_all add: alloc_def)

lemma toy_trainer_params:
  "params (oc toy_trainer) = [0, 1]" "params (oc_targ toy_trainer) = [2, 3]"
  "opt_params (optimizer toy_trainer) = [0, 1]"
  by (simp_all add: toy_trainer_def init_def build_networks_def toy_def alloc_def deepcopy_def
      Let_def upt_rec config.extend_def trainer.fields_def config.defs trainer.defs)

lemma toy_trainer_heap:
  "heap toy_trainer 0 = \<lparr>data = [1, 2], requires_grad = True\<rparr>"
  "heap toy_trainer 1 = \<lparr>data = [3], requires_grad = True\<rparr>"
  "heap toy_trainer (Suc 0) = \<lparr>data = [3], requires_grad = True\<rparr>"
  "heap toy_trainer 2 = \<lparr>data = [1, 2], requires_grad = False\<rparr>"
  "heap toy_trainer 3 = \<lparr>data = [3], requires_grad = False\<rparr>"
  by (simp_all add: toy_trainer_def init_def build_networks_def toy_def alloc_def deepcopy_def
      freeze_def Let_def upt_rec config.extend_def trainer.fields_def config.defs trainer.defs)

lemma blend_nth:
  "length t = length m \<Longrightarrow> j < length t \<Longrightarrow> blend pk t m ! j = pk * t ! j + (1 - pk) * m ! j"
  by (simp add: blend_def)

lemma blend_one: "length t = length m \<Longrightarrow> blend 1 t m = t"
  by (intro nth_equalityI) (simp_all add: blend_def)

lemma blend_zero: "length t = length m \<Longrightarrow> blend 0 t m = m"
  by (intro nth_equalityI) (simp_all add: blend_def)

lemma paired_zip:
  assumes "paired self"
  shows "distinct (map snd (zip (params (oc self)) (params (oc_targ self))))"
    and "set (map fst (zip (params (oc self)) (params (oc_targ self))))
          \<inter> set (map snd (zip (params (oc self)) (params (oc_targ self)))) = {}"
    and "\<forall>(p, q)\<in>set (zip (params (oc self)) (params (oc_targ self))).
           length (data (heap self p)) = length (data (heap self q))"
    and "length (params (oc self)) = length (params (oc_targ self))"
proof -
  from assms have d: "distinct (params (oc_targ self))"
    and i: "set (params (oc self)) \<inter> set (params (oc_targ self)) = {}"
    and l: "list_all2 (\<lambda>p q. length (data (heap self p)) = length (data (heap self q)))
           (params (oc self)) (params (oc_targ self))"
    by (simp_all add: paired_def)
  show len: "length (params (oc self)) = length (params (oc_targ self))"
    using l by (rule list_all2_lengthD)
  show "distinct (map snd (zip (params (oc self)) (params (oc_targ self))))"
    using d len by simp
  show "set (map fst (zip (params (oc self)) (params (oc_targ self))))
          \<inter> set (map snd (zip (params (oc self)) (params (oc_targ self)))) = {}"
    using i len by simp
  show "\<forall>(p, q)\<in>set (zip (params (oc self)) (params (oc_targ self))).
           length (data (heap self p)) = length (data (heap self q))"
    using l by (auto simp: list_all2_iff)
qed

text \<open>
  C3. When the target model is a separate copy of the model, one call to
  \<^verbatim>\<open>update_target_network\<close> succeeds and leaves in every target parameter
  \<open>polyak * p_targ + (1 - polyak) * p\<close>, entry by entry, for the model parameter \<open>p\<close>
  paired with it; nothing else in the store changes. With \<open>polyak = 1\<close> the target is
  unchanged, with \<open>polyak = 0\<close> its parameters hold the entries of the model's.
\<close>

theorem polyak_update:
  assumes "paired self"
  shows "\<exists>self'. update_target_network self = Inr self'
     \<and> params (oc_targ self') = params (oc_targ self) \<and> params (oc self') = params (oc self)
     \<and> (\<forall>i<length (params (oc_targ self)).
          length (data (heap self' (params (oc_targ self) ! i)))
            = length (data (heap self (params (oc_targ self) ! i)))
        \<and> (\<forall>j<length (data (heap self (params (oc_targ self) ! i))).
             data (heap self' (params (oc_targ self) ! i)) ! j
               = polyak self * data (heap self (params (oc_targ self) ! i)) ! j
                 + (1 - polyak self) * data (heap self (params (oc self) ! i)) ! j))
     \<and> (\<forall>a. a \<notin> set (params (oc_targ self)) \<longrightarrow> heap self' a = heap self a)
     \<and> (polyak self = 1 \<longrightarrow> view (heap self') (oc_targ self') = view (heap self) (oc_targ self))
     \<and> (polyak self = 0 \<longrightarrow> snd (view (heap self') (oc_targ self')) = snd (view (heap self) (oc self)))"
proof -
  let ?ps = "params (oc self)" and ?qs = "params (oc_targ self)"
  note z = paired_zip [OF assms]
  from polyak_pairs_blend [OF z(1) z(2) z(3), of "polyak self"] obtain h' where
    r: "polyak_pairs (polyak self) (zip ?ps ?qs) (heap self) = Some h'"
    and out: "\<forall>a. a \<notin> set (map snd (zip ?ps ?qs)) \<longrightarrow> h' a = heap self a"
    and inn: "\<forall>(p, q)\<in>set (zip ?ps ?qs).
        h' q = (heap self q)\<lparr>data := blend (polyak self) (data (heap self q)) (data (heap self p))\<rparr>"
    by blast
  have u: "update_target_network self = Inr (self\<lparr>heap := h'\<rparr>)"
    using r by (simp add: update_target_network_def)
  have tg: "h' (?qs ! i) = (heap self (?qs ! i))
      \<lparr>data := blend (polyak self) (data (heap self (?qs ! i))) (data (heap self (?ps ! i)))\<rparr>"
    and ln: "length (data (heap self (?ps ! i))) = length (data (heap self (?qs ! i)))"
    if "i < length ?qs" for i
  proof -
    have m: "(?ps ! i, ?qs ! i) \<in> set (zip ?ps ?qs)"
      using that z(4) by (auto simp: set_zip)
    show "h' (?qs ! i) = (heap self (?qs ! i))
      \<lparr>data := blend (polyak self) (data (heap self (?qs ! i))) (data (heap self (?ps ! i)))\<rparr>"
      using inn m by blast
    show "length (data (heap self (?ps ! i))) = length (data (heap self (?qs ! i)))"
      using z(3) m by blast
  qed
  have a: "length (data (h' (?qs ! i))) = length (data (heap self (?qs ! i)))
        \<and> (\<forall>j<length (data (heap self (?qs ! i))).
             data (h' (?qs ! i)) ! j
               = polyak self * data (heap self (?qs ! i)) ! j
                 + (1 - polyak self) * data (heap self (?ps ! i)) ! j)"
    if "i < length ?qs" for i
    using tg [OF that] ln [OF that] by (simp add: blend_nth) (simp add: blend_def)
  have b: "\<forall>a. a \<notin> set ?qs \<longrightarrow> h' a = heap self a"
    using out z(4) by simp
  have c: "view h' (oc_targ self) = view (heap self) (oc_targ self)" if "polyak self = 1"
  proof -
    have "map (\<lambda>a. data (h' a)) ?qs = map (\<lambda>a. data (heap self a)) ?qs"
      by (rule nth_equalityI) (simp_all add: tg ln that blend_one)
    then show ?thesis by (simp add: view_def)
  qed
  have d: "snd (view h' (oc_targ self)) = snd (view (heap self) (oc self))" if "polyak self = 0"
  proof -
    have "map (\<lambda>a. data (h' a)) ?qs = map (\<lambda>a. data (heap self a)) ?ps"
      by (rule nth_equalityI) (simp_all add: z(4) tg ln that blend_zero)
    then show ?thesis by (simp add: view_def)
  qed
  show ?thesis
    using u a b c d by simp
qed

lemma list_of_one: "length xs = Suc 0 \<Longrightarrow> xs = [xs ! 0]"
  by (cases xs) simp_all

lemma list_of_two: "length xs = 2 \<Longrightarrow> xs = [xs ! 0, xs ! Suc 0]"
  by (cases xs; cases "tl xs") simp_all

lemma toy_trained_paired: "paired toy_trained"
  by (simp add: paired_def toy_trained_def toy_trainer_params toy_trainer_heap)

theorem polyak_update_witness:
  "paired toy_trained
   \<and> map (\<lambda>a. data (heap (projr (update_target_network toy_trained)) a)) (params (oc_targ toy_trained))
       = [[1 / 2 * 1 + (1 - 1 / 2) * 11, 1 / 2 * 2 + (1 - 1 / 2) * 22], [1 / 2 * 3 + (1 - 1 / 2) * 3]]"
proof -
  from polyak_update [OF toy_trained_paired] obtain self' where
    u: "update_target_network toy_trained = Inr self'"
    and e: "\<forall>i<length (params (oc_targ toy_trained)).
          length (data (heap self' (params (oc_targ toy_trained) ! i)))
            = length (data (heap toy_trained (params (oc_targ toy_trained) ! i)))
        \<and> (\<forall>j<length (data (heap toy_trained (params (oc_targ toy_trained) ! i))).
             data (heap self' (params (oc_targ toy_trained) ! i)) ! j
               = polyak toy_trained * data (heap toy_trained (params (oc_targ toy_trained) ! i)) ! j
                 + (1 - polyak toy_trained) * data (heap toy_trained (params (oc toy_trained) ! i)) ! j)"
    by blast
  have p: "params (oc_targ toy_trained) = [2, 3]" "params (oc toy_trained) = [0, 1]"
    "polyak toy_trained = 1 / 2"
    "data (heap toy_trained 0) = [11, 22]" "data (heap toy_trained 1) = [3]"
    "data (heap toy_trained (Suc 0)) = [3]"
    "data (heap toy_trained 2) = [1, 2]" "data (heap toy_trained 3) = [3]"
    by (simp_all add: toy_trained_def toy_trainer_params toy_trainer_heap)
  from e [rule_format, of 0] have e0: "length (data (heap self' 2)) = 2"
    "data (heap self' 2) ! 0 = 1 / 2 * 1 + (1 - 1 / 2) * 11"
    "data (heap self' 2) ! 1 = 1 / 2 * 2 + (1 - 1 / 2) * 22"
    by (simp_all add: p)
  from e [rule_format, of 1] have e1: "length (data (heap self' 3)) = 1"
    "data (heap self' 3) ! 0 = 1 / 2 * 3 + (1 - 1 / 2) * 3"
    by (simp_all add: p)
  have "data (heap self' 2) = [1 / 2 * 1 + (1 - 1 / 2) * 11, 1 / 2 * 2 + (1 - 1 / 2) * 22]"
    using list_of_two [OF e0(1)] e0(2,3) by simp
  moreover have "data (heap self' 3) = [1 / 2 * 3 + (1 - 1 / 2) * 3]"
    using list_of_one [of "data (heap self' 3)"] e1 by simp
  ultimately show ?thesis
    using toy_trained_paired u p by simp
qed

subsection \<open>What an update changes\<close>

lemma keeps_refl: "keeps h h"
  by (simp add: keeps_def)

lemma keeps_trans: "keeps h h' \<Longrightarrow> keeps h' h'' \<Longrightarrow> keeps h h''"
  by (simp add: keeps_def)

lemma keeps_write:
  "length d = length (data (h a)) \<Longrightarrow> keeps h (h(a := (h a)\<lparr>data := d\<rparr>))"
  by (simp add: keeps_def)

lemma add_inplace_length: "add_inplace a b = Some d \<Longrightarrow> length d = length a"
  by (auto simp: add_inplace_def split: if_splits)

lemma polyak_pair_keeps: "polyak_pair pk pp h = Some h' \<Longrightarrow> keeps h h'"
  by (cases pp) (auto simp: polyak_pair_def Let_def keeps_def scale_def
      split: option.splits if_splits dest!: add_inplace_length)

lemma polyak_pairs_keeps: "polyak_pairs pk pps h = Some h' \<Longrightarrow> keeps h h'"
proof (induction pps arbitrary: h)
  case Nil
  then show ?case by (simp add: keeps_refl)
next
  case (Cons pp pps)
  then obtain h1 where 1: "polyak_pair pk pp h = Some h1" and 2: "polyak_pairs pk pps h1 = Some h'"
    by (auto split: option.splits)
  from polyak_pair_keeps [OF 1] Cons.IH [OF 2] show ?case
    by (rule keeps_trans)
qed

lemma update_target_network_shape:
  assumes "update_target_network self = Inr self'"
  shows "\<exists>h. self' = self\<lparr>heap := h\<rparr> \<and> keeps (heap self) h"
  using assms polyak_pairs_keeps
  by (auto simp: update_target_network_def split: option.splits)

lemma optimizer_step_keeps: "keeps h (optimizer_step h as new)"
proof -
  have "keeps h (fold (\<lambda>(a, d) h. if requires_grad (h a) \<and> length d = length (data (h a))
                       then h(a := (h a)\<lparr>data := d\<rparr>) else h) xs h)" for xs
  proof (induction xs arbitrary: h)
    case Nil
    then show ?case by (simp add: keeps_refl)
  next
    case (Cons x xs)
    obtain a d where x: "x = (a, d)" by (cases x)
    let ?h1 = "if requires_grad (h a) \<and> length d = length (data (h a))
                       then h(a := (h a)\<lparr>data := d\<rparr>) else h"
    have "keeps h ?h1"
      by (simp add: keeps_write keeps_refl)
    from keeps_trans [OF this Cons.IH [of ?h1]] show ?case
      by (simp add: x)
  qed
  then show ?thesis by (simp add: optimizer_step_def)
qed


lemma sac_update_shape:
  assumes "sac_update c self experiences = Inr self'"
  shows "\<exists>h os r lg. self' = self\<lparr>oc := (oc self)\<lparr>training := True\<rparr>,
                         oc_targ := (oc_targ self)\<lparr>training := True\<rparr>,
                         heap := h, optimizer := (optimizer self)\<lparr>opt_state := os\<rparr>,
                         rng := r, logger := lg\<rparr>
           \<and> keeps (heap self) h"
proof -
  obtain ob options rewards next_ob dn where e: "experiences = (ob, options, rewards, next_ob, dn)"
    by (cases experiences)
  let ?s1 = "self\<lparr>oc := (oc self)\<lparr>training := True\<rparr>, oc_targ := (oc_targ self)\<lparr>training := True\<rparr>\<rparr>"
  have "\<exists>new os r lg. update_target_network
            (?s1\<lparr>heap := optimizer_step (heap self) (opt_params (optimizer self)) new,
             optimizer := (optimizer self)\<lparr>opt_state := os\<rparr>, rng := r, logger := lg\<rparr>) = Inr self'"
    using assms unfolding sac_update_def e
    by (simp add: Let_def split: prod.splits option.splits) blast
  then obtain new os r lg mid where
    mid: "mid = ?s1\<lparr>heap := optimizer_step (heap self) (opt_params (optimizer self)) new,
             optimizer := (optimizer self)\<lparr>opt_state := os\<rparr>, rng := r, logger := lg\<rparr>"
    and u: "update_target_network mid = Inr self'"
    by blast
  from update_target_network_shape [OF u] obtain h where
    h: "self' = mid\<lparr>heap := h\<rparr>" "keeps (heap mid) h"
    by blast
  have "keeps (heap self) h"
    using keeps_trans [OF optimizer_step_keeps, of "heap self" "opt_params (optimizer self)" new h] h(2)
    by (simp add: mid)
  moreover have "self' = self\<lparr>oc := (oc self)\<lparr>training := True\<rparr>,
                         oc_targ := (oc_targ self)\<lparr>training := True\<rparr>,
                         heap := h, optimizer := (optimizer self)\<lparr>opt_state := os\<rparr>,
                         rng := r, logger := lg\<rparr>"
    by (simp add: h(1) mid)
  ultimately show ?thesis by blast
qed

lemma learns_refl: "learns self self"
  unfolding learns_def
  by (intro exI [of _ "oc self"] exI [of _ "oc_targ self"] exI [of _ "heap self"]
      exI [of _ "opt_state (optimizer self)"] exI [of _ "rng self"] exI [of _ "logger self"])
    (simp add: keeps_refl)

lemma learns_trans:
  assumes "learns a b" "learns b c"
  shows "learns a c"
proof -
  from assms(1) obtain m1 m2 h os r lg where
    b: "b = a\<lparr>oc := m1, oc_targ := m2, heap := h,
              optimizer := (optimizer a)\<lparr>opt_state := os\<rparr>, rng := r, logger := lg\<rparr>"
    and p: "params m1 = params (oc a)" "params m2 = params (oc_targ a)" "keeps (heap a) h"
    unfolding learns_def by blast
  from assms(2) obtain m1' m2' h' os' r' lg' where
    c: "c = b\<lparr>oc := m1', oc_targ := m2', heap := h',
              optimizer := (optimizer b)\<lparr>opt_state := os'\<rparr>, rng := r', logger := lg'\<rparr>"
    and p': "params m1' = params (oc b)" "params m2' = params (oc_targ b)" "keeps (heap b) h'"
    unfolding learns_def by blast
  have "c = a\<lparr>oc := m1', oc_targ := m2', heap := h',
              optimizer := (optimizer a)\<lparr>opt_state := os'\<rparr>, rng := r', logger := lg'\<rparr>"
    by (simp add: c b)
  moreover have "params m1' = params (oc a)" "params m2' = params (oc_targ a)"
    using p p' by (simp_all add: b)
  moreover have "keeps (heap a) h'"
    using keeps_trans [OF p(3)] p'(3) by (simp add: b)
  ultimately show ?thesis
    unfolding learns_def by blast
qed

lemma learns_fields:
  assumes "learns self self'"
  shows "replay_buffer self' = replay_buffer self" "env self' = env self"
    "best_mean_reward self' = best_mean_reward self" "fs self' = fs self"
    "max_ep_len self' = max_ep_len self" "next_addr self' = next_addr self"
    "params (oc self') = params (oc self)" "params (oc_targ self') = params (oc_targ self)"
    "opt_params (optimizer self') = opt_params (optimizer self)"
    "keeps (heap self) (heap self')"
    "config.truncate self' = config.truncate self"
  using assms unfolding learns_def by (auto simp: config.truncate_def)

lemma sac_update_learns:
  assumes "sac_update c self experiences = Inr self'"
  shows "learns self self'"
proof -
  from sac_update_shape [OF assms] obtain h os r lg where
    e: "self' = self\<lparr>oc := (oc self)\<lparr>training := True\<rparr>,
                         oc_targ := (oc_targ self)\<lparr>training := True\<rparr>,
                         heap := h, optimizer := (optimizer self)\<lparr>opt_state := os\<rparr>,
                         rng := r, logger := lg\<rparr>"
    and k: "keeps (heap self) h"
    by blast
  show ?thesis
    unfolding learns_def
    by (intro exI [of _ "(oc self)\<lparr>training := True\<rparr>"]
        exI [of _ "(oc_targ self)\<lparr>training := True\<rparr>"] exI [of _ h]
        exI [of _ os] exI [of _ r] exI [of _ lg]) (simp add: e k)
qed

lemma learns_rng: "learns self (self\<lparr>rng := r\<rparr>)"
  unfolding learns_def
  by (intro exI [of _ "oc self"] exI [of _ "oc_targ self"] exI [of _ "heap self"]
      exI [of _ "opt_state (optimizer self)"] exI [of _ r] exI [of _ "logger self"])
    (simp add: keeps_refl)

lemma sac_updates_learns: "sac_updates c n self = Inr self' \<Longrightarrow> learns self self'"
proof (induction n arbitrary: self)
  case 0
  then show ?case by (simp add: learns_refl)
next
  case (Suc n)
  obtain experiences r where s: "rb_sample c (replay_buffer self) (batch_size self) (rng self) = (experiences, r)"
    by (cases "rb_sample c (replay_buffer self) (batch_size self) (rng self)")
  from Suc.prems s obtain mid where
    1: "sac_update c (self\<lparr>rng := r\<rparr>) experiences = Inr mid" and 2: "sac_updates c n mid = Inr self'"
    by (auto split: sum.splits)
  from learns_trans [OF learns_rng sac_update_learns [OF 1]] Suc.IH [OF 2]
  show ?case by (rule learns_trans)
qed

lemma run_updates_learns: "run_updates c t self = Inr self' \<Longrightarrow> learns self self'"
  by (auto simp: run_updates_def learns_refl split: if_splits dest: sac_updates_learns)

subsection \<open>One iteration of the training loop\<close>

lemma save_weights_shape:
  "save_weights c self best fname = self\<lparr>fs := fs (save_weights c self best fname)\<rparr>"
  by (simp add: save_weights_def Let_def)

lemma save_weights_fields:
  "best_mean_reward (save_weights c self best fname) = best_mean_reward self"
  "logger (save_weights c self best fname) = logger self"
  "env (save_weights c self best fname) = env self"
  by (simp_all add: save_weights_def Let_def)

lemma end_of_episode_result:
  assumes "end_of_episode c n ls self = (ret, ls', self')"
  shows "ls' = ls\<lparr>ep_ret := 0, ep_len := 0, option_lengths := fresh_lengths c,
                    episode := episode ls + 1\<rparr>"
    and "self' = self\<lparr>logger := logger self', env := snd (env_reset c (env self)),
                       best_mean_reward := best_mean_reward self', fs := fs self'\<rparr>"
    and "best_mean_reward self' = best_mean_reward self
         \<or> best_mean_reward self < best_mean_reward self'"
proof -
  obtain state e where r: "env_reset c (env self) = (state, e)"
    by (cases "env_reset c (env self)")
  let ?lg = "logger_store c (logger self)
                 [(''EpRet'', Num (ep_ret ls)), (''EpLen'', Count (ep_len ls)),
                  (''OptLen'', Lengths (option_lengths ls))]"
  obtain x y where l: "logger_load_results c ?lg [''EpLen'', ''EpRet''] = (x, y)"
    by (cases "logger_load_results c ?lg [''EpLen'', ''EpRet'']")
  show "ls' = ls\<lparr>ep_ret := 0, ep_len := 0, option_lengths := fresh_lengths c,
                    episode := episode ls + 1\<rparr>"
    using assms r l
    by (auto simp: end_of_episode_def Let_def split: if_splits option.splits)
  let ?s1 = "self\<lparr>logger := ?lg, env := e\<rparr>"
  define s2 where "s2 = (case np_mean (drop (length y - 50) y) of
                             None \<Rightarrow> ?s1
                           | Some m \<Rightarrow>
                               if Some m > best_mean_reward ?s1
                               then save_weights c (?s1\<lparr>best_mean_reward := Some m\<rparr>) False
                                      (Some (''best_'' @ str_int n @ ''.pth''))
                               else ?s1)"
  have s2: "s2 = self\<lparr>logger := ?lg, env := e, best_mean_reward := best_mean_reward s2,
                      fs := fs s2\<rparr>"
    and b2: "best_mean_reward s2 = best_mean_reward self \<or> best_mean_reward self < best_mean_reward s2"
    and lg2: "logger s2 = ?lg"
    unfolding s2_def
    by (auto simp: save_weights_def Let_def split: option.splits)
  from assms r l have "self' = ?s1\<lparr>logger := logger_dump c ?lg\<rparr> \<or> self' = s2
      \<or> self' = s2\<lparr>logger := logger_dump c (logger s2)\<rparr>"
    by (auto simp: end_of_episode_def Let_def s2_def split: if_splits)
  then consider "self' = ?s1\<lparr>logger := logger_dump c ?lg\<rparr>" | "self' = s2"
    | "self' = s2\<lparr>logger := logger_dump c (logger s2)\<rparr>"
    by blast
  then have "self' = self\<lparr>logger := logger self', env := e,
                       best_mean_reward := best_mean_reward self', fs := fs self'\<rparr>
     \<and> (best_mean_reward self' = best_mean_reward self
         \<or> best_mean_reward self < best_mean_reward self')"
  proof cases
    case 1
    then show ?thesis by simp
  next
    case 2
    have "s2 = self\<lparr>logger := logger s2, env := e,
               best_mean_reward := best_mean_reward s2, fs := fs s2\<rparr>"
      unfolding lg2 by (rule s2)
    then show ?thesis using 2 b2 by simp
  next
    case 3
    have "s2\<lparr>logger := logger_dump c (logger s2)\<rparr>
        = self\<lparr>logger := logger_dump c (logger s2), env := e,
               best_mean_reward := best_mean_reward s2, fs := fs s2\<rparr>"
      by (subst s2) simp
    then show ?thesis using 3 b2 by simp
  qed
  then show "self' = self\<lparr>logger := logger self', env := snd (env_reset c (env self)),
                       best_mean_reward := best_mean_reward self', fs := fs self'\<rparr>"
    and "best_mean_reward self' = best_mean_reward self
         \<or> best_mean_reward self < best_mean_reward self'"
    by (simp_all add: r)
qed

lemma trial_step_cases:
  assumes "trial_step c n t (ls, self) = Inr (ret, ls', self')"
  obtains eps lens cur col r1 action r2 next_obs reward dn e trm r3 self2 where
    "update_epsilon self (epsilon ls) (of_int t) = Inr eps"
    and "choose_option c ls self eps = Inr (lens, cur, col, r1)"
    and "get_action c (view (heap self) (oc self)) (to_tensor c (obs ls)) cur r1 = (action, r2)"
    and "env_step c (env self) action = ((next_obs, reward, dn), e)"
    and "predict_option_termination c (view (heap self) (oc self)) (to_tensor c next_obs) cur r2
          = (trm, r3)"
    and "run_updates c t
           (self\<lparr>env := e,
                  replay_buffer := rb_append (replay_buffer self)
                    (obs ls, cur, reward, next_obs, dn \<and> ep_len ls + 1 \<noteq> max_ep_len self),
                  rng := r3\<rparr>) = Inr self2"
    and "(ret, ls', self') =
           (if (dn \<and> ep_len ls + 1 \<noteq> max_ep_len self) \<or> ep_len ls + 1 = max_ep_len self2
            then end_of_episode c n
                   \<lparr>epsilon = eps, obs = next_obs, ep_ret = ep_ret ls + reward,
                    ep_len = ep_len ls + 1, curr_op_len = col, option_termination = trm,
                    current_option = cur, episode = episode ls, option_lengths = lens\<rparr> self2
            else (False,
                   \<lparr>epsilon = eps, obs = next_obs, ep_ret = ep_ret ls + reward,
                    ep_len = ep_len ls + 1, curr_op_len = col, option_termination = trm,
                    current_option = cur, episode = episode ls, option_lengths = lens\<rparr>, self2))"
proof -
  from assms obtain eps where 1: "update_epsilon self (epsilon ls) (of_int t) = Inr eps"
    by (auto simp: trial_step_def split: sum.splits)
  from assms 1 obtain lens cur col r1 where 2: "choose_option c ls self eps = Inr (lens, cur, col, r1)"
    by (auto simp: trial_step_def split: sum.splits)
  obtain action r2 where
    3: "get_action c (view (heap self) (oc self)) (to_tensor c (obs ls)) cur r1 = (action, r2)"
    by (cases "get_action c (view (heap self) (oc self)) (to_tensor c (obs ls)) cur r1")
  obtain next_obs reward dn e where 4: "env_step c (env self) action = ((next_obs, reward, dn), e)"
    by (cases "env_step c (env self) action") auto
  obtain trm r3 where
    5: "predict_option_termination c (view (heap self) (oc self)) (to_tensor c next_obs) cur r2
          = (trm, r3)"
    by (cases "predict_option_termination c (view (heap self) (oc self)) (to_tensor c next_obs) cur r2")
  let ?flag = "if ep_len ls + 1 = max_ep_len self then False else dn"
  have f: "?flag = (dn \<and> ep_len ls + 1 \<noteq> max_ep_len self)"
    by simp
  let ?s1 = "self\<lparr>env := e,
                  replay_buffer := rb_append (replay_buffer self)
                    (obs ls, cur, reward, next_obs, ?flag),
                  rng := r3\<rparr>"
  from assms 1 2 3 4 5 obtain self2 where 6: "run_updates c t ?s1 = Inr self2"
    unfolding trial_step_def by (auto simp: Let_def split: sum.splits)
  from assms 1 2 3 4 5 6 have 7: "(ret, ls', self') =
           (if ?flag \<or> ep_len ls + 1 = max_ep_len self2
            then end_of_episode c n
                   \<lparr>epsilon = eps, obs = next_obs, ep_ret = ep_ret ls + reward,
                    ep_len = ep_len ls + 1, curr_op_len = col, option_termination = trm,
                    current_option = cur, episode = episode ls, option_lengths = lens\<rparr> self2
            else (False,
                   \<lparr>epsilon = eps, obs = next_obs, ep_ret = ep_ret ls + reward,
                    ep_len = ep_len ls + 1, curr_op_len = col, option_termination = trm,
                    current_option = cur, episode = episode ls, option_lengths = lens\<rparr>, self2))"
    unfolding trial_step_def by (auto simp: Let_def split: if_splits)
  from that [OF 1 2 3 4 5 6 [unfolded f] 7 [unfolded f]] show thesis .
qed

subsection \<open>Terminal flags and bootstrap targets\<close>

lemma end_of_episode_fields:
  assumes "end_of_episode c n ls self = (ret, ls', self')"
  shows "replay_buffer self' = replay_buffer self" "heap self' = heap self"
    "oc self' = oc self" "oc_targ self' = oc_targ self" "optimizer self' = optimizer self"
    "max_ep_len self' = max_ep_len self" "env self' = snd (env_reset c (env self))"
    "rng self' = rng self" "next_addr self' = next_addr self"
proof -
  note e = end_of_episode_result(2) [OF assms]
  show "replay_buffer self' = replay_buffer self" by (subst e) simp
  show "heap self' = heap self" by (subst e) simp
  show "oc self' = oc self" by (subst e) simp
  show "oc_targ self' = oc_targ self" by (subst e) simp
  show "optimizer self' = optimizer self" by (subst e) simp
  show "max_ep_len self' = max_ep_len self" by (subst e) simp
  show "env self' = snd (env_reset c (env self))" by (subst e) simp
  show "rng self' = rng self" by (subst e) simp
  show "next_addr self' = next_addr self" by (subst e) simp
qed

lemma trial_step_buffer:
  assumes "trial_step c n t (ls, self) = Inr (ret, ls', self')"
  shows "\<exists>cur action reward next_obs dn e r1 r2.
      get_action c (view (heap self) (oc self)) (to_tensor c (obs ls)) cur r1 = (action, r2)
    \<and> env_step c (env self) action = ((next_obs, reward, dn), e)
    \<and> replay_buffer self' = rb_append (replay_buffer self)
          (obs ls, cur, reward, next_obs, dn \<and> ep_len ls + 1 \<noteq> max_ep_len self)"
proof -
  from assms obtain eps lens cur col r1 action r2 next_obs reward dn e trm r3 self2 where
    a: "get_action c (view (heap self) (oc self)) (to_tensor c (obs ls)) cur r1 = (action, r2)"
    and s: "env_step c (env self) action = ((next_obs, reward, dn), e)"
    and u: "run_updates c t
           (self\<lparr>env := e,
                  replay_buffer := rb_append (replay_buffer self)
                    (obs ls, cur, reward, next_obs, dn \<and> ep_len ls + 1 \<noteq> max_ep_len self),
                  rng := r3\<rparr>) = Inr self2"
    and r: "(ret, ls', self') =
           (if (dn \<and> ep_len ls + 1 \<noteq> max_ep_len self) \<or> ep_len ls + 1 = max_ep_len self2
            then end_of_episode c n
                   \<lparr>epsilon = eps, obs = next_obs, ep_ret = ep_ret ls + reward,
                    ep_len = ep_len ls + 1, curr_op_len = col, option_termination = trm,
                    current_option = cur, episode = episode ls, option_lengths = lens\<rparr> self2
            else (False,
                   \<lparr>epsilon = eps, obs = next_obs, ep_ret = ep_ret ls + reward,
                    ep_len = ep_len ls + 1, curr_op_len = col, option_termination = trm,
                    current_option = cur, episode = episode ls, option_lengths = lens\<rparr>, self2))"
    by (rule trial_step_cases)
  have b2: "replay_buffer self2 = rb_append (replay_buffer self)
          (obs ls, cur, reward, next_obs, dn \<and> ep_len ls + 1 \<noteq> max_ep_len self)"
    using learns_fields(1) [OF run_updates_learns [OF u]] by simp
  have "replay_buffer self' = replay_buffer self2"
  proof (cases "(dn \<and> ep_len ls + 1 \<noteq> max_ep_len self) \<or> ep_len ls + 1 = max_ep_len self2")
    case True
    with r have "end_of_episode c n
                   \<lparr>epsilon = eps, obs = next_obs, ep_ret = ep_ret ls + reward,
                    ep_len = ep_len ls + 1, curr_op_len = col, option_termination = trm,
                    current_option = cur, episode = episode ls, option_lengths = lens\<rparr> self2
         = (ret, ls', self')"
      by simp
    then show ?thesis
      by (rule end_of_episode_fields(1))
  next
    case False
    with r show ?thesis by simp
  qed
  with b2 have "replay_buffer self' = rb_append (replay_buffer self)
          (obs ls, cur, reward, next_obs, dn \<and> ep_len ls + 1 \<noteq> max_ep_len self)"
    by simp
  with a s show ?thesis
    by (intro exI [of _ cur] exI [of _ action] exI [of _ reward] exI [of _ next_obs]
        exI [of _ dn] exI [of _ e] exI [of _ r1] exI [of _ r2]) simp
qed

lemma well_shaped_flags:
  assumes "well_shaped c oc_v targ_v (ob, options, rewards, next_ob, dn) states logp"
    and "length dn' = length dn"
  shows "well_shaped c oc_v targ_v (ob, options, rewards, next_ob, dn') states logp"
  using assms by (simp add: well_shaped_def)

text \<open>
  C1. On a well-shaped batch each critic's target is
  \<open>reward + (1 - terminal) * gamma * utility\<close>: a terminal transition has target
  \<open>reward\<close>, a non-terminal one \<open>reward + gamma * utility\<close>, and two batches that
  differ only in the flags have, where the flag goes from one to zero, the same utility
  and targets that differ by \<open>gamma * utility\<close>. In \<^verbatim>\<open>learn_one_trial\<close> the transition
  an iteration stores carries the environment's terminal flag unless the episode has
  reached \<open>max_ep_len\<close>, in which case it carries \<open>False\<close>.
\<close>

theorem terminal_flag_bootstrap:
  "(well_shaped c oc_v targ_v (ob, options, rewards, next_ob, dn) states logp \<longrightarrow>
      (\<exists>v. sac_losses c self oc_v targ_v (ob, options, rewards, next_ob, dn) states logp = Some v
         \<and> (\<forall>k<length options.
               Q1_u v ! k = rewards ! k + (1 - dn ! k) * gamma self * utility_1 v ! k
             \<and> Q2_u v ! k = rewards ! k + (1 - dn ! k) * gamma self * utility_2 v ! k
             \<and> (dn ! k = 1 \<longrightarrow> Q1_u v ! k = rewards ! k \<and> Q2_u v ! k = rewards ! k)
             \<and> (dn ! k = 0 \<longrightarrow> Q1_u v ! k = rewards ! k + gamma self * utility_1 v ! k
                              \<and> Q2_u v ! k = rewards ! k + gamma self * utility_2 v ! k))))
   \<and> (well_shaped c oc_v targ_v (ob, options, rewards, next_ob, dn) states logp
        \<and> length dn' = length dn \<longrightarrow>
      (\<exists>v v'. sac_losses c self oc_v targ_v (ob, options, rewards, next_ob, dn) states logp = Some v
         \<and> sac_losses c self oc_v targ_v (ob, options, rewards, next_ob, dn') states logp = Some v'
         \<and> (\<forall>k<length options. dn ! k = 1 \<and> dn' ! k = 0 \<longrightarrow>
               utility_1 v' ! k = utility_1 v ! k \<and> utility_2 v' ! k = utility_2 v ! k
             \<and> Q1_u v' ! k - Q1_u v ! k = gamma self * utility_1 v ! k
             \<and> Q2_u v' ! k - Q2_u v ! k = gamma self * utility_2 v ! k)))
   \<and> (trial_step c n t (ls, tr) = Inr (ret, ls', tr') \<longrightarrow>
      (\<exists>cur action reward next_obs terminal e r1 r2.
          get_action c (view (heap tr) (oc tr)) (to_tensor c (obs ls)) cur r1 = (action, r2)
        \<and> env_step c (env tr) action = ((next_obs, reward, terminal), e)
        \<and> replay_buffer tr' = rb_append (replay_buffer tr)
             (obs ls, cur, reward, next_obs, terminal \<and> ep_len ls + 1 \<noteq> max_ep_len tr)
        \<and> (ep_len ls + 1 = max_ep_len tr \<longrightarrow>
             replay_buffer tr' = rb_append (replay_buffer tr) (obs ls, cur, reward, next_obs, False))))"
proof (intro conjI impI)
  assume ws: "well_shaped c oc_v targ_v (ob, options, rewards, next_ob, dn) states logp"
  from sac_losses_defined [OF ws, of self] obtain v
    where v: "sac_losses c self oc_v targ_v (ob, options, rewards, next_ob, dn) states logp = Some v"
    by blast
  have "Q1_u v ! k = rewards ! k + (1 - dn ! k) * gamma self * utility_1 v ! k
      \<and> Q2_u v ! k = rewards ! k + (1 - dn ! k) * gamma self * utility_2 v ! k
      \<and> (dn ! k = 1 \<longrightarrow> Q1_u v ! k = rewards ! k \<and> Q2_u v ! k = rewards ! k)
      \<and> (dn ! k = 0 \<longrightarrow> Q1_u v ! k = rewards ! k + gamma self * utility_1 v ! k
                        \<and> Q2_u v ! k = rewards ! k + gamma self * utility_2 v ! k)"
    if "k < length options" for k
    using sac_entries(8,9) [OF ws v that] by simp
  with v show "\<exists>v. sac_losses c self oc_v targ_v (ob, options, rewards, next_ob, dn) states logp = Some v
         \<and> (\<forall>k<length options.
               Q1_u v ! k = rewards ! k + (1 - dn ! k) * gamma self * utility_1 v ! k
             \<and> Q2_u v ! k = rewards ! k + (1 - dn ! k) * gamma self * utility_2 v ! k
             \<and> (dn ! k = 1 \<longrightarrow> Q1_u v ! k = rewards ! k \<and> Q2_u v ! k = rewards ! k)
             \<and> (dn ! k = 0 \<longrightarrow> Q1_u v ! k = rewards ! k + gamma self * utility_1 v ! k
                              \<and> Q2_u v ! k = rewards ! k + gamma self * utility_2 v ! k))"
    by blast
next
  assume "well_shaped c oc_v targ_v (ob, options, rewards, next_ob, dn) states logp
        \<and> length dn' = length dn"
  then have ws: "well_shaped c oc_v targ_v (ob, options, rewards, next_ob, dn) states logp"
    and ws': "well_shaped c oc_v targ_v (ob, options, rewards, next_ob, dn') states logp"
    using well_shaped_flags by blast+
  from sac_losses_defined [OF ws, of self] obtain v
    where v: "sac_losses c self oc_v targ_v (ob, options, rewards, next_ob, dn) states logp = Some v"
    by blast
  from sac_losses_defined [OF ws', of self] obtain v'
    where v': "sac_losses c self oc_v targ_v (ob, options, rewards, next_ob, dn') states logp = Some v'"
    by blast
  have "utility_1 v' ! k = utility_1 v ! k \<and> utility_2 v' ! k = utility_2 v ! k
             \<and> Q1_u v' ! k - Q1_u v ! k = gamma self * utility_1 v ! k
             \<and> Q2_u v' ! k - Q2_u v ! k = gamma self * utility_2 v ! k"
    if k: "k < length options" and d: "dn ! k = 1 \<and> dn' ! k = 0" for k
  proof -
    note a = sac_entries [OF ws v k] and b = sac_entries [OF ws' v' k]
    have u1: "utility_1 v' ! k = utility_1 v ! k"
      by (simp add: a(1,2,3,6) b(1,2,3,6))
    have u2: "utility_2 v' ! k = utility_2 v ! k"
      by (simp add: a(1,4,5,7) b(1,4,5,7))
    show ?thesis
      using d by (simp add: a(8,9) b(8,9) u1 u2)
  qed
  with v v' show "\<exists>v v'. sac_losses c self oc_v targ_v (ob, options, rewards, next_ob, dn) states logp = Some v
         \<and> sac_losses c self oc_v targ_v (ob, options, rewards, next_ob, dn') states logp = Some v'
         \<and> (\<forall>k<length options. dn ! k = 1 \<and> dn' ! k = 0 \<longrightarrow>
               utility_1 v' ! k = utility_1 v ! k \<and> utility_2 v' ! k = utility_2 v ! k
             \<and> Q1_u v' ! k - Q1_u v ! k = gamma self * utility_1 v ! k
             \<and> Q2_u v' ! k - Q2_u v ! k = gamma self * utility_2 v ! k)"
    by blast
next
  assume "trial_step c n t (ls, tr) = Inr (ret, ls', tr')"
  from trial_step_buffer [OF this] obtain cur action reward next_obs terminal e r1 r2 where
    "get_action c (view (heap tr) (oc tr)) (to_tensor c (obs ls)) cur r1 = (action, r2)"
    "env_step c (env tr) action = ((next_obs, reward, terminal), e)"
    "replay_buffer tr' = rb_append (replay_buffer tr)
             (obs ls, cur, reward, next_obs, terminal \<and> ep_len ls + 1 \<noteq> max_ep_len tr)"
    by blast
  then show "\<exists>cur action reward next_obs terminal e r1 r2.
          get_action c (view (heap tr) (oc tr)) (to_tensor c (obs ls)) cur r1 = (action, r2)
        \<and> env_step c (env tr) action = ((next_obs, reward, terminal), e)
        \<and> replay_buffer tr' = rb_append (replay_buffer tr)
             (obs ls, cur, reward, next_obs, terminal \<and> ep_len ls + 1 \<noteq> max_ep_len tr)
        \<and> (ep_len ls + 1 = max_ep_len tr \<longrightarrow>
             replay_buffer tr' = rb_append (replay_buffer tr) (obs ls, cur, reward, next_obs, False))"
    by (intro exI [of _ cur] exI [of _ action] exI [of _ reward] exI [of _ next_obs]
        exI [of _ terminal] exI [of _ e] exI [of _ r1] exI [of _ r2]) simp
qed

lemma toy_trainer_fields:
  "max_ep_len toy_trainer = 1" "env toy_trainer = 0"
  "replay_buffer toy_trainer = \<lparr>capacity = 1000000, storage = []\<rparr>"
  "batch_size toy_trainer = 100" "eps_decay toy_trainer = 20000"
  "eps_start toy_trainer = 1" "eps_end toy_trainer = 1 / 10"
  "best_mean_reward toy_trainer = None" "save_dir toy_trainer = ''runs''"
  "fs toy_trainer = Map.empty" "ngpu toy_trainer = 1" "update_every toy_trainer = 50"
  "oc toy_trainer = \<lparr>params = [0, 1], training = True\<rparr>"
  "oc_targ toy_trainer = \<lparr>params = [2, 3], training = True\<rparr>"
  "optimizer toy_trainer = \<lparr>opt_params = [0, 1], opt_state = ()\<rparr>"
  by (simp_all add: toy_trainer_def init_def build_networks_def toy_def alloc_def deepcopy_def
      Let_def upt_rec config.extend_def trainer.fields_def config.defs trainer.defs
      default_config_def ReplayBuffer_def)

lemma toy_calls:
  "num_options toy = 2"
  "get_option toy v ob eps r = (1, r)"
  "get_action toy v ob opt r = ([real opt], r)"
  "predict_option_termination toy v ob opt r = (False, r)"
  "to_tensor toy ob = ob"
  "env_reset toy e = ([0], 0)"
  "env_step toy e a = (([real (Suc e)], 1, True), Suc e)"
  "max_episode_steps toy e = Some 1"
  "reward_threshold toy e = None"
  "logger_store toy lg entries = lg"
  "logger_load_results toy lg ks = ([1], [1])"
  "logger_dump toy lg = lg"
  "sanitise_state_dict toy sd multi = sd"
  "rb_load toy b p files = Inr b"
  "env_load toy e p files = e"
  "env_set_training toy e flag = e"
  "env_render toy e mode = ([real e], e)"
  by (simp_all add: toy_def)

lemma toy_started_loop:
  "fst toy_started =
     \<lparr>epsilon = 1, obs = [0], ep_ret = 0, ep_len = 0, curr_op_len = 0,
       option_termination = True, current_option = 0, episode = 0,
       option_lengths = [(0, []), (Suc 0, [])]\<rparr>"
  by (simp add: toy_started_def trial_start_def toy_trainer_fields Let_def fresh_lengths_def
      upt_rec toy_calls)

lemma toy_started_fields:
  "max_ep_len (snd toy_started) = 1" "env (snd toy_started) = 0"
  "replay_buffer (snd toy_started) = \<lparr>capacity = 1000000, storage = []\<rparr>"
  "batch_size (snd toy_started) = 100" "eps_decay (snd toy_started) = 20000"
  "eps_start (snd toy_started) = 1" "eps_end (snd toy_started) = 1 / 10"
  "best_mean_reward (snd toy_started) = None"
  "oc (snd toy_started) = \<lparr>params = [0, 1], training = True\<rparr>"
  "rng (snd toy_started) = ()"
  by (simp_all add: toy_started_def trial_start_def toy_trainer_fields Let_def toy_calls)

lemma toy_first_step:
  "\<exists>ls' tr'. trial_step toy 1 1 (fst toy_started, snd toy_started) = Inr (False, ls', tr')
     \<and> storage (replay_buffer tr') = [([0], Suc 0, 1, [1], False)]
     \<and> obs ls' = [1] \<and> ep_len ls' = 0 \<and> episode ls' = 1 \<and> env tr' = 0"
  by (simp add: trial_step_def update_epsilon_def choose_option_def lengths_append_def
      toy_started_loop toy_started_fields toy_calls Let_def run_updates_def rb_size_def
      rb_append_def end_of_episode_def np_mean_def save_weights_def)

lemma toy_well_shaped_flags:
  "well_shaped toy toy_view toy_view ([[0], [1]], [0, 1], [1, 1], [[1], [2]], [0, 1]) [[0], [1]] [- 1, - 1]"
  using toy_well_shaped by (simp add: toy_batch_def)

theorem terminal_flag_bootstrap_witness:
  "well_shaped toy toy_view toy_view toy_batch [[0], [1]] [- 1, - 1]
   \<and> Q1_u (the (sac_losses toy default_config toy_view toy_view toy_batch [[0], [1]] [- 1, - 1])) ! 1
       = 1
   \<and> Q1_u (the (sac_losses toy default_config toy_view toy_view
                  ([[0], [1]], [0, 1], [1, 1], [[1], [2]], [0, 0]) [[0], [1]] [- 1, - 1])) ! 1
       - Q1_u (the (sac_losses toy default_config toy_view toy_view toy_batch [[0], [1]] [- 1, - 1])) ! 1
       = 99 / 100 * 2
   \<and> ep_len (fst toy_started) + 1 = max_ep_len (snd toy_started)
   \<and> map (\<lambda>(ob, opt, reward, next_ob, terminal). terminal)
         (storage (replay_buffer (snd (snd (projr
            (trial_step toy 1 1 (fst toy_started, snd toy_started))))))) = [False]"
proof -
  note th = terminal_flag_bootstrap [of toy toy_view toy_view "[[0], [1]]" "[0, 1]" "[1, 1]"
      "[[1], [2]]" "[0, 1]" "[[0], [1]]" "[- 1, - 1]" default_config "[0, 0]"
      1 1 "fst toy_started" "snd toy_started" False]
  note ws = toy_well_shaped_flags
  have g: "gamma default_config = 99 / 100"
    by (simp add: default_config_def)
  note th1 = th [THEN conjunct1, rule_format, OF ws]
  note th2 = th [THEN conjunct2, THEN conjunct1, rule_format]
  note th3 = th [THEN conjunct2, THEN conjunct2, rule_format]
  from th1 obtain v where
    v: "sac_losses toy default_config toy_view toy_view toy_batch [[0], [1]] [- 1, - 1] = Some v"
    and t: "\<forall>k<length [0 :: nat, 1].
               ([0, 1] ! k = (1 :: real) \<longrightarrow> Q1_u v ! k = [1, 1] ! k \<and> Q2_u v ! k = [1, 1] ! k)"
    unfolding toy_batch_def by blast
  from t [rule_format, of 1] have a: "Q1_u v ! 1 = 1"
    by simp
  have l: "length [0 :: real, 0] = length [0 :: real, 1]"
    by simp
  from th2 [OF conjI [OF ws l]] obtain w w' where
    w: "sac_losses toy default_config toy_view toy_view toy_batch [[0], [1]] [- 1, - 1] = Some w"
    and w': "sac_losses toy default_config toy_view toy_view
               ([[0], [1]], [0, 1], [1, 1], [[1], [2]], [0, 0]) [[0], [1]] [- 1, - 1] = Some w'"
    and d: "\<forall>k<length [0 :: nat, 1]. [0, 1] ! k = (1 :: real) \<and> [0, 0] ! k = (0 :: real) \<longrightarrow>
               utility_1 w' ! k = utility_1 w ! k \<and> utility_2 w' ! k = utility_2 w ! k
             \<and> Q1_u w' ! k - Q1_u w ! k = gamma default_config * utility_1 w ! k
             \<and> Q2_u w' ! k - Q2_u w ! k = gamma default_config * utility_2 w ! k"
    unfolding toy_batch_def by blast
  have u: "utility_1 w = [3 / 2, 2]"
    using w toy_losses by auto
  from d [rule_format, of 1] have b: "Q1_u w' ! 1 - Q1_u w ! 1 = 99 / 100 * 2"
    by (simp add: g u)
  have wv: "w = v"
    using v w by simp
  have e: "ep_len (fst toy_started) + 1 = max_ep_len (snd toy_started)"
    by (simp add: toy_started_loop toy_started_fields)
  from toy_first_step obtain ls' tr' where
    s: "trial_step toy 1 1 (fst toy_started, snd toy_started) = Inr (False, ls', tr')"
    by blast
  have s': "trial_step toy 1 1 toy_started = Inr (False, ls', tr')"
    using s by simp
  from th3 [OF s] e obtain cur reward next_obs where
    "replay_buffer tr' = rb_append (replay_buffer (snd toy_started))
        (obs (fst toy_started), cur, reward, next_obs, False)"
    by blast
  then have "map (\<lambda>(ob, opt, reward, next_ob, terminal). terminal) (storage (replay_buffer tr')) = [False]"
    by (simp add: toy_started_fields rb_append_def)
  then have c: "map (\<lambda>(ob, opt, reward, next_ob, terminal). terminal)
         (storage (replay_buffer (snd (snd (projr
            (trial_step toy 1 1 (fst toy_started, snd toy_started))))))) = [False]"
    by (simp add: s')
  show ?thesis
    using toy_well_shaped v w w' a b c e wv by simp
qed

subsection \<open>The observation across an episode boundary\<close>

lemma choose_option_obs:
  assumes "choose_option c ls self eps = Inr (lens, cur, col, r1)"
  shows "if option_termination ls
         then get_option c (view (heap self) (oc self)) (to_tensor c (obs ls)) eps (rng self) = (cur, r1)
              \<and> col = 0
         else cur = current_option ls \<and> col = curr_op_len ls \<and> r1 = rng self"
  using assms by (auto simp: choose_option_def split: sum.splits prod.splits if_splits)

lemma trial_step_effect:
  assumes "trial_step c n t (ls, self) = Inr (ret, ls', self')"
  obtains eps lens cur col r1 action r2 next_obs reward dn e trm r3 where
    "update_epsilon self (epsilon ls) (of_int t) = Inr eps"
    and "choose_option c ls self eps = Inr (lens, cur, col, r1)"
    and "get_action c (view (heap self) (oc self)) (to_tensor c (obs ls)) cur r1 = (action, r2)"
    and "env_step c (env self) action = ((next_obs, reward, dn), e)"
    and "predict_option_termination c (view (heap self) (oc self)) (to_tensor c next_obs) cur r2
          = (trm, r3)"
    and "replay_buffer self' = rb_append (replay_buffer self)
           (obs ls, cur, reward, next_obs, dn \<and> ep_len ls + 1 \<noteq> max_ep_len self)"
    and "obs ls' = next_obs" and "option_termination ls' = trm" and "curr_op_len ls' = col"
    and "current_option ls' = cur" and "epsilon ls' = eps"
    and "if (dn \<and> ep_len ls + 1 \<noteq> max_ep_len self) \<or> ep_len ls + 1 = max_ep_len self
         then episode ls' = episode ls + 1 \<and> ep_ret ls' = 0 \<and> ep_len ls' = 0
              \<and> env self' = snd (env_reset c e)
         else \<not> ret \<and> episode ls' = episode ls \<and> ep_ret ls' = ep_ret ls + reward
              \<and> ep_len ls' = ep_len ls + 1 \<and> env self' = e"
proof -
  from assms obtain eps lens cur col r1 action r2 next_obs reward dn e trm r3 self2 where
    a0: "update_epsilon self (epsilon ls) (of_int t) = Inr eps"
    and a1: "choose_option c ls self eps = Inr (lens, cur, col, r1)"
    and a2: "get_action c (view (heap self) (oc self)) (to_tensor c (obs ls)) cur r1 = (action, r2)"
    and a3: "env_step c (env self) action = ((next_obs, reward, dn), e)"
    and a4: "predict_option_termination c (view (heap self) (oc self)) (to_tensor c next_obs) cur r2
          = (trm, r3)"
    and a5: "run_updates c t
           (self\<lparr>env := e,
                  replay_buffer := rb_append (replay_buffer self)
                    (obs ls, cur, reward, next_obs, dn \<and> ep_len ls + 1 \<noteq> max_ep_len self),
                  rng := r3\<rparr>) = Inr self2"
    and a6: "(ret, ls', self') =
           (if (dn \<and> ep_len ls + 1 \<noteq> max_ep_len self) \<or> ep_len ls + 1 = max_ep_len self2
            then end_of_episode c n
                   \<lparr>epsilon = eps, obs = next_obs, ep_ret = ep_ret ls + reward,
                    ep_len = ep_len ls + 1, curr_op_len = col, option_termination = trm,
                    current_option = cur, episode = episode ls, option_lengths = lens\<rparr> self2
            else (False,
                   \<lparr>epsilon = eps, obs = next_obs, ep_ret = ep_ret ls + reward,
                    ep_len = ep_len ls + 1, curr_op_len = col, option_termination = trm,
                    current_option = cur, episode = episode ls, option_lengths = lens\<rparr>, self2))"
    by (rule trial_step_cases)
  let ?l = "\<lparr>epsilon = eps, obs = next_obs, ep_ret = ep_ret ls + reward,
                    ep_len = ep_len ls + 1, curr_op_len = col, option_termination = trm,
                    current_option = cur, episode = episode ls, option_lengths = lens\<rparr>"
  note lf = learns_fields [OF run_updates_learns [OF a5]]
  have m: "max_ep_len self2 = max_ep_len self" and e2: "env self2 = e"
    and b2: "replay_buffer self2 = rb_append (replay_buffer self)
           (obs ls, cur, reward, next_obs, dn \<and> ep_len ls + 1 \<noteq> max_ep_len self)"
    using lf(1,2,5) by simp_all
  show thesis
  proof (cases "(dn \<and> ep_len ls + 1 \<noteq> max_ep_len self) \<or> ep_len ls + 1 = max_ep_len self")
    case True
    with a6 m have eoe: "end_of_episode c n ?l self2 = (ret, ls', self')"
      by simp
    note l1 = end_of_episode_result(1) [OF eoe]
    note f = end_of_episode_fields [OF eoe]
    show thesis
    proof (rule that [OF a0 a1 a2 a3 a4])
      show "replay_buffer self' = rb_append (replay_buffer self)
           (obs ls, cur, reward, next_obs, dn \<and> ep_len ls + 1 \<noteq> max_ep_len self)"
        using f(1) b2 by simp
      show "obs ls' = next_obs" "option_termination ls' = trm" "curr_op_len ls' = col"
        "current_option ls' = cur" "epsilon ls' = eps"
        by (simp_all add: l1)
      show "if (dn \<and> ep_len ls + 1 \<noteq> max_ep_len self) \<or> ep_len ls + 1 = max_ep_len self
         then episode ls' = episode ls + 1 \<and> ep_ret ls' = 0 \<and> ep_len ls' = 0
              \<and> env self' = snd (env_reset c e)
         else \<not> ret \<and> episode ls' = episode ls \<and> ep_ret ls' = ep_ret ls + reward
              \<and> ep_len ls' = ep_len ls + 1 \<and> env self' = e"
        using True f(7) e2 by (auto simp: l1)
    qed
  next
    case False
    with a6 m have r: "ret = False" "ls' = ?l" "self' = self2"
      by simp_all
    show thesis
    proof (rule that [OF a0 a1 a2 a3 a4])
      show "replay_buffer self' = rb_append (replay_buffer self)
           (obs ls, cur, reward, next_obs, dn \<and> ep_len ls + 1 \<noteq> max_ep_len self)"
        using b2 r by simp
      show "obs ls' = next_obs" "option_termination ls' = trm" "curr_op_len ls' = col"
        "current_option ls' = cur" "epsilon ls' = eps"
        by (simp_all add: r)
      show "if (dn \<and> ep_len ls + 1 \<noteq> max_ep_len self) \<or> ep_len ls + 1 = max_ep_len self
         then episode ls' = episode ls + 1 \<and> ep_ret ls' = 0 \<and> ep_len ls' = 0
              \<and> env self' = snd (env_reset c e)
         else \<not> ret \<and> episode ls' = episode ls \<and> ep_ret ls' = ep_ret ls + reward
              \<and> ep_len ls' = ep_len ls + 1 \<and> env self' = e"
        using False e2 by (auto simp: r)
    qed
  qed
qed

text \<open>
  C10. When an iteration of \<^verbatim>\<open>learn_one_trial\<close> ends an episode and the trial goes
  on, the environment has been reset but \<open>obs\<close> is the observation \<open>next_obs\<close> the last
  step of the ended episode returned, and \<open>option_termination\<close>, \<open>curr_op_len\<close> and
  \<open>current_option\<close> are as that step left them, while \<open>ep_ret\<close> and \<open>ep_len\<close> are zero.
  The next iteration selects its option (when the option has terminated) and its action
  for that observation, and stores a transition whose first component it is.
\<close>

theorem stale_observation_after_reset:
  assumes first: "trial_step c n t (ls, tr) = Inr (False, ls1, tr1)"
    and ended: "episode ls1 = episode ls + 1"
    and second: "trial_step c n (t + 1) (ls1, tr1) = Inr (ret, ls2, tr2)"
  shows "\<exists>eps lens cur col r1 action r2 next_obs reward terminal e trm r3
           eps' lens' cur' col' r1' action' r2' next_obs' reward' terminal' e'.
      choose_option c ls tr eps = Inr (lens, cur, col, r1)
    \<and> env_step c (env tr) action = ((next_obs, reward, terminal), e)
    \<and> predict_option_termination c (view (heap tr) (oc tr)) (to_tensor c next_obs) cur r2 = (trm, r3)
    \<and> env tr1 = snd (env_reset c e)
    \<and> obs ls1 = next_obs
    \<and> option_termination ls1 = trm \<and> curr_op_len ls1 = col \<and> current_option ls1 = cur
    \<and> ep_ret ls1 = 0 \<and> ep_len ls1 = 0
    \<and> choose_option c ls1 tr1 eps' = Inr (lens', cur', col', r1')
    \<and> (if trm
        then get_option c (view (heap tr1) (oc tr1)) (to_tensor c next_obs) eps' (rng tr1) = (cur', r1')
        else cur' = cur \<and> col' = col)
    \<and> get_action c (view (heap tr1) (oc tr1)) (to_tensor c next_obs) cur' r1' = (action', r2')
    \<and> env_step c (env tr1) action' = ((next_obs', reward', terminal'), e')
    \<and> replay_buffer tr2 = rb_append (replay_buffer tr1)
          (next_obs, cur', reward', next_obs', terminal' \<and> ep_len ls1 + 1 \<noteq> max_ep_len tr1)"
proof -
  from first obtain eps lens cur col r1 action r2 next_obs reward terminal e trm r3 where
    a1: "choose_option c ls tr eps = Inr (lens, cur, col, r1)"
    and a2: "env_step c (env tr) action = ((next_obs, reward, terminal), e)"
    and a3: "predict_option_termination c (view (heap tr) (oc tr)) (to_tensor c next_obs) cur r2
          = (trm, r3)"
    and o: "obs ls1 = next_obs" "option_termination ls1 = trm" "curr_op_len ls1 = col"
      "current_option ls1 = cur"
    and i: "if (terminal \<and> ep_len ls + 1 \<noteq> max_ep_len tr) \<or> ep_len ls + 1 = max_ep_len tr
         then episode ls1 = episode ls + 1 \<and> ep_ret ls1 = 0 \<and> ep_len ls1 = 0
              \<and> env tr1 = snd (env_reset c e)
         else \<not> False \<and> episode ls1 = episode ls \<and> ep_ret ls1 = ep_ret ls + reward
              \<and> ep_len ls1 = ep_len ls + 1 \<and> env tr1 = e"
    by (rule trial_step_effect)
  from i ended have z: "ep_ret ls1 = 0" "ep_len ls1 = 0" "env tr1 = snd (env_reset c e)"
    by (auto split: if_splits)
  from second obtain eps' lens' cur' col' r1' action' r2' next_obs' reward' terminal' e' where
    b1: "choose_option c ls1 tr1 eps' = Inr (lens', cur', col', r1')"
    and b2: "get_action c (view (heap tr1) (oc tr1)) (to_tensor c (obs ls1)) cur' r1' = (action', r2')"
    and b3: "env_step c (env tr1) action' = ((next_obs', reward', terminal'), e')"
    and b4: "replay_buffer tr2 = rb_append (replay_buffer tr1)
           (obs ls1, cur', reward', next_obs', terminal' \<and> ep_len ls1 + 1 \<noteq> max_ep_len tr1)"
    by (rule trial_step_effect)
  have b5: "if trm
        then get_option c (view (heap tr1) (oc tr1)) (to_tensor c next_obs) eps' (rng tr1) = (cur', r1')
        else cur' = cur \<and> col' = col"
    using choose_option_obs [OF b1] o by (simp split: if_splits)
  show ?thesis
    apply (rule exI [of _ eps], rule exI [of _ lens], rule exI [of _ cur], rule exI [of _ col])
    apply (rule exI [of _ r1], rule exI [of _ action], rule exI [of _ r2], rule exI [of _ next_obs])
    apply (rule exI [of _ reward], rule exI [of _ terminal], rule exI [of _ e], rule exI [of _ trm])
    apply (rule exI [of _ r3], rule exI [of _ eps'], rule exI [of _ lens'], rule exI [of _ cur'])
    apply (rule exI [of _ col'], rule exI [of _ r1'], rule exI [of _ action'], rule exI [of _ r2'])
    apply (rule exI [of _ next_obs'], rule exI [of _ reward'], rule exI [of _ terminal'])
    apply (rule exI [of _ e'])
    using a1 a2 a3 o z b1 b2 b3 b4 b5 apply simp
    done
qed

lemma toy_started_pair: "toy_started = (fst toy_started, snd toy_started)"
  by simp

lemma toy_after_one_step: "trial_step toy 1 1 toy_started = Inr toy_after_one"
proof -
  from toy_first_step obtain ls' tr' where
    "trial_step toy 1 1 (fst toy_started, snd toy_started) = Inr (False, ls', tr')"
    by blast
  then show ?thesis by (simp add: toy_after_one_def)
qed

lemma toy_after_one_fields:
  "fst toy_after_one = False"
  "obs (fst (snd toy_after_one)) = [1]"
  "ep_len (fst (snd toy_after_one)) = 0"
  "ep_ret (fst (snd toy_after_one)) = 0"
  "episode (fst (snd toy_after_one)) = 1"
  "option_termination (fst (snd toy_after_one)) = False"
  "current_option (fst (snd toy_after_one)) = Suc 0"
  "curr_op_len (fst (snd toy_after_one)) = 0"
  "option_lengths (fst (snd toy_after_one)) = [(0, []), (Suc 0, [])]"
  "max_ep_len (snd (snd toy_after_one)) = 1"
  "env (snd (snd toy_after_one)) = 0"
  "replay_buffer (snd (snd toy_after_one))
     = \<lparr>capacity = 1000000, storage = [([0], Suc 0, 1, [1], False)]\<rparr>"
  "batch_size (snd (snd toy_after_one)) = 100"
  "eps_decay (snd (snd toy_after_one)) = 20000"
  "rng (snd (snd toy_after_one)) = ()"
  "best_mean_reward (snd (snd toy_after_one)) = Some 1"
  unfolding toy_after_one_def
  by (subst toy_started_pair,
      simp add: trial_step_def update_epsilon_def choose_option_def lengths_append_def
      toy_started_loop toy_started_fields toy_calls Let_def run_updates_def rb_size_def
      rb_append_def end_of_episode_def fresh_lengths_def upt_rec np_mean_def save_weights_def)+

lemma toy_second_step:
  "\<exists>ls' tr'. trial_step toy 1 2 (fst (snd toy_after_one), snd (snd toy_after_one)) = Inr (False, ls', tr')
     \<and> storage (replay_buffer tr')
         = [([0], Suc 0, 1, [1], False), ([1], Suc 0, 1, [1], False)]"
  by (simp add: trial_step_def update_epsilon_def choose_option_def
      toy_after_one_fields toy_calls Let_def run_updates_def rb_size_def
      rb_append_def end_of_episode_def case_prod_beta np_mean_def save_weights_def)

theorem stale_observation_after_reset_witness:
  "episode (fst (snd toy_after_one)) = episode (fst toy_started) + 1
   \<and> fst (env_reset toy (env (snd (snd toy_after_one)))) = [0]
   \<and> obs (fst (snd toy_after_one)) = [1]
   \<and> fst (last (storage (replay_buffer (snd (snd (projr
         (trial_step toy 1 2 (fst (snd toy_after_one), snd (snd toy_after_one))))))))) = [1]"
proof -
  have first: "trial_step toy 1 1 (fst toy_started, snd toy_started)
      = Inr (False, fst (snd toy_after_one), snd (snd toy_after_one))"
  proof -
    have e: "(False, snd toy_after_one) = toy_after_one"
      using toy_after_one_fields(1) by (metis prod.collapse)
    show ?thesis
      by (simp only: prod.collapse e toy_after_one_step)
  qed
  have ended: "episode (fst (snd toy_after_one)) = episode (fst toy_started) + 1"
    by (simp add: toy_after_one_fields toy_started_loop)
  from toy_second_step obtain ls2 tr2 where
    second: "trial_step toy 1 (1 + 1) (fst (snd toy_after_one), snd (snd toy_after_one))
        = Inr (False, ls2, tr2)"
    by auto
  from stale_observation_after_reset [OF first ended second]
  obtain next_obs cur' reward' next_obs' flag where
    o: "obs (fst (snd toy_after_one)) = next_obs"
    and b: "replay_buffer tr2 = rb_append (replay_buffer (snd (snd toy_after_one)))
          (next_obs, cur', reward', next_obs', flag)"
    by blast
  have "fst (last (storage (replay_buffer tr2))) = obs (fst (snd toy_after_one))"
    unfolding b o [symmetric] by (simp add: toy_after_one_fields rb_append_def)
  then have "fst (last (storage (replay_buffer (snd (snd (projr
         (trial_step toy 1 2 (fst (snd toy_after_one), snd (snd toy_after_one))))))))) = [1]"
    using second by (simp add: toy_after_one_fields)
  then show ?thesis
    using ended by (simp add: toy_after_one_fields toy_calls)
qed

subsection \<open>The best mean reward\<close>

lemma writes_keep:
  assumes "\<forall>(a, v)\<in>set xs. length v = length (data (h a))"
  shows "keeps h (fold (\<lambda>(a, v) h. h(a := (h a)\<lparr>data := v\<rparr>)) xs h)"
  using assms
proof (induction xs arbitrary: h)
  case Nil
  then show ?case by (simp add: keeps_refl)
next
  case (Cons x xs)
  obtain a v where x: "x = (a, v)" by (cases x)
  let ?h1 = "h(a := (h a)\<lparr>data := v\<rparr>)"
  from Cons.prems x have k: "keeps h ?h1"
    by (intro keeps_write) simp
  have "\<forall>(a', v')\<in>set xs. length v' = length (data (?h1 a'))"
    using Cons.prems k by (auto simp: keeps_def)
  from keeps_trans [OF k Cons.IH [OF this]] show ?case
    by (simp add: x)
qed

lemma module_load_state_dict_keeps:
  assumes "module_load_state_dict h m sd = Inr h'"
  shows "keeps h h'"
proof -
  from assms obtain vs where sd: "sd = ModuleState vs"
    and ok: "list_all2 (\<lambda>a v. length (data (h a)) = length v) (params m) vs"
    and h': "h' = fold (\<lambda>(a, v) h. h(a := (h a)\<lparr>data := v\<rparr>)) (zip (params m) vs) h"
    by (auto simp: module_load_state_dict_def split: state_dict.splits if_splits)
  have "\<forall>(a, v)\<in>set (zip (params m) vs). length v = length (data (h a))"
    using ok by (auto simp: list_all2_iff)
  from writes_keep [OF this] show ?thesis
    by (simp add: h')
qed

lemma load_weights_shape:
  assumes "load_weights c self best load_buffer = (res, self')"
  shows "self' = self\<lparr>replay_buffer := replay_buffer self', heap := heap self',
                       optimizer := (optimizer self)\<lparr>opt_state := opt_state (optimizer self')\<rparr>,
                       env := env self'\<rparr>"
    and "keeps (heap self) (heap self')"
proof -
  have "self' = self\<lparr>replay_buffer := replay_buffer self', heap := heap self',
                       optimizer := (optimizer self)\<lparr>opt_state := opt_state (optimizer self')\<rparr>,
                       env := env self'\<rparr>
      \<and> keeps (heap self) (heap self')"
    using assms
    by (auto simp: load_weights_def attempt_def Let_def keeps_refl optimizer_load_state_dict_def
        split: if_splits sum.splits state_dict.splits
        dest!: module_load_state_dict_keeps intro: keeps_trans)
  then show "self' = self\<lparr>replay_buffer := replay_buffer self', heap := heap self',
                       optimizer := (optimizer self)\<lparr>opt_state := opt_state (optimizer self')\<rparr>,
                       env := env self'\<rparr>"
    and "keeps (heap self) (heap self')"
    by blast+
qed

lemma test_shape:
  assumes "test c self timesteps render record = (res, self')"
  shows "self' = self\<lparr>oc := (oc self)\<lparr>training := False\<rparr>,
                       oc_targ := (oc_targ self)\<lparr>training := False\<rparr>,
                       env := env self', fs := fs self'\<rparr>"
  using assms
  by (auto simp: test_def Let_def split: prod.splits if_splits option.splits)

lemma trial_step_best:
  assumes "trial_step c n t (ls, self) = Inr (ret, ls', self')"
  shows "best_mean_reward self' = best_mean_reward self
         \<or> best_mean_reward self < best_mean_reward self'"
proof -
  from assms obtain eps lens cur col r1 action r2 next_obs reward dn e trm r3 self2 where
    u: "run_updates c t
           (self\<lparr>env := e,
                  replay_buffer := rb_append (replay_buffer self)
                    (obs ls, cur, reward, next_obs, dn \<and> ep_len ls + 1 \<noteq> max_ep_len self),
                  rng := r3\<rparr>) = Inr self2"
    and r: "(ret, ls', self') =
           (if (dn \<and> ep_len ls + 1 \<noteq> max_ep_len self) \<or> ep_len ls + 1 = max_ep_len self2
            then end_of_episode c n
                   \<lparr>epsilon = eps, obs = next_obs, ep_ret = ep_ret ls + reward,
                    ep_len = ep_len ls + 1, curr_op_len = col, option_termination = trm,
                    current_option = cur, episode = episode ls, option_lengths = lens\<rparr> self2
            else (False,
                   \<lparr>epsilon = eps, obs = next_obs, ep_ret = ep_ret ls + reward,
                    ep_len = ep_len ls + 1, curr_op_len = col, option_termination = trm,
                    current_option = cur, episode = episode ls, option_lengths = lens\<rparr>, self2))"
    by (rule trial_step_cases)
  have b2: "best_mean_reward self2 = best_mean_reward self"
    using learns_fields(3) [OF run_updates_learns [OF u]] by simp
  show ?thesis
  proof (cases "(dn \<and> ep_len ls + 1 \<noteq> max_ep_len self) \<or> ep_len ls + 1 = max_ep_len self2")
    case True
    with r have "end_of_episode c n
                   \<lparr>epsilon = eps, obs = next_obs, ep_ret = ep_ret ls + reward,
                    ep_len = ep_len ls + 1, curr_op_len = col, option_termination = trm,
                    current_option = cur, episode = episode ls, option_lengths = lens\<rparr> self2
         = (ret, ls', self')"
      by simp
    from end_of_episode_result(3) [OF this] show ?thesis
      by (simp add: b2)
  next
    case False
    with r b2 show ?thesis by simp
  qed
qed

lemma learn_loop_best:
  assumes "learn_loop c n ts (ls, self) = Inr (ls', self')"
  shows "best_mean_reward self \<le> best_mean_reward self'"
  using assms
proof (induction ts arbitrary: ls self)
  case Nil
  then show ?case by simp
next
  case (Cons t ts)
  from Cons.prems obtain ret ls1 self1 where
    1: "trial_step c n t (ls, self) = Inr (ret, ls1, self1)"
    and 2: "if ret then (ls', self') = (ls1, self1)
            else learn_loop c n ts (ls1, self1) = Inr (ls', self')"
    by (auto split: sum.splits if_splits)
  from trial_step_best [OF 1] have a: "best_mean_reward self \<le> best_mean_reward self1"
    by auto
  show ?case
  proof (cases ret)
    case True
    with 2 a show ?thesis by simp
  next
    case False
    with 2 have "learn_loop c n ts (ls1, self1) = Inr (ls', self')" by simp
    from Cons.IH [OF this] a show ?thesis by simp
  qed
qed

lemma trial_start_best: "best_mean_reward (snd (trial_start c self)) = best_mean_reward self"
  by (simp add: trial_start_def Let_def split: prod.splits)

lemma learn_one_trial_best:
  assumes "learn_one_trial c self timesteps n = Inr self'"
  shows "best_mean_reward self \<le> best_mean_reward self'"
proof -
  from assms obtain ls' where
    "learn_loop c n [1..timesteps] (fst (trial_start c self), snd (trial_start c self)) = Inr (ls', self')"
    by (auto simp: learn_one_trial_def split: sum.splits)
  from learn_loop_best [OF this] show ?thesis
    by (simp add: trial_start_best)
qed

lemma build_networks_fields:
  "best_mean_reward (build_networks c self) = best_mean_reward self"
  "replay_buffer (build_networks c self) = ReplayBuffer (replay_size self)"
  by (simp_all add: build_networks_def deepcopy_def Let_def split: prod.splits)

text \<open>
  C7. After \<^verbatim>\<open>reinit_network\<close> the best mean reward is minus infinity (below every
  number) and the replay buffer is a new one, of size zero. An iteration of
  \<^verbatim>\<open>learn_one_trial\<close> leaves the best mean reward as it is or replaces it by a strictly
  larger one, so a whole trial does not decrease it; updates, saving, loading and
  testing do not touch it.
\<close>

theorem best_mean_reward_reset_and_growth:
  "best_mean_reward (reinit_network c self) = None
   \<and> (\<forall>x. best_mean_reward (reinit_network c self) < Some x)
   \<and> replay_buffer (reinit_network c self) = ReplayBuffer (replay_size self)
   \<and> rb_size (replay_buffer (reinit_network c self)) = 0
   \<and> (trial_step c n t (ls, self) = Inr (ret, ls', self') \<longrightarrow>
        best_mean_reward self' = best_mean_reward self
        \<or> best_mean_reward self < best_mean_reward self')
   \<and> (learn_one_trial c self timesteps n = Inr self'' \<longrightarrow>
        best_mean_reward self \<le> best_mean_reward self'')
   \<and> (sac_update c self experiences = Inr self3 \<longrightarrow>
        best_mean_reward self3 = best_mean_reward self)
   \<and> (update_target_network self = Inr self4 \<longrightarrow>
        best_mean_reward self4 = best_mean_reward self)
   \<and> best_mean_reward (save_weights c self best fname) = best_mean_reward self
   \<and> best_mean_reward (snd (load_weights c self best load_buffer)) = best_mean_reward self
   \<and> best_mean_reward (snd (test c self budget render recording)) = best_mean_reward self
   \<and> best_mean_reward (snd (evaluate_agent c self)) = best_mean_reward self"
proof -
  have 1: "best_mean_reward (reinit_network c self) = None"
    by (simp add: reinit_network_def build_networks_fields)
  have 2: "replay_buffer (reinit_network c self) = ReplayBuffer (replay_size self)"
    by (simp add: reinit_network_def build_networks_fields)
  have 3: "rb_size (replay_buffer (reinit_network c self)) = 0"
    by (simp add: 2 rb_size_def ReplayBuffer_def)
  have 4: "best_mean_reward self3 = best_mean_reward self"
    if "sac_update c self experiences = Inr self3"
    using learns_fields(3) [OF sac_update_learns [OF that]] .
  have 5: "best_mean_reward self4 = best_mean_reward self"
    if "update_target_network self = Inr self4"
    using update_target_network_shape [OF that] by auto
  have 6: "best_mean_reward (save_weights c self best fname) = best_mean_reward self"
    by (rule save_weights_fields)
  have 7: "best_mean_reward (snd (load_weights c self best load_buffer)) = best_mean_reward self"
    by (subst load_weights_shape(1) [of c self best load_buffer
          "fst (load_weights c self best load_buffer)" "snd (load_weights c self best load_buffer)"])
       simp_all
  have 8: "best_mean_reward (snd (test c self budget render recording)) = best_mean_reward self"
    by (subst test_shape [of c self budget render recording
          "fst (test c self budget render recording)" "snd (test c self budget render recording)"])
       simp_all
  have 9: "best_mean_reward (snd (evaluate_agent c self)) = best_mean_reward self"
    by (simp add: evaluate_agent_def)
  have 10: "trial_step c n t (ls, self) = Inr (ret, ls', self') \<longrightarrow>
        best_mean_reward self' = best_mean_reward self
        \<or> best_mean_reward self < best_mean_reward self'"
    using trial_step_best by blast
  have 11: "learn_one_trial c self timesteps n = Inr self'' \<longrightarrow>
        best_mean_reward self \<le> best_mean_reward self''"
    using learn_one_trial_best by blast
  show ?thesis
    using 1 2 3 4 5 6 7 8 9 10 11 by simp
qed

lemma toy_one_trial: "learn_one_trial toy toy_trainer 1 1 = Inr (snd (snd toy_after_one))"
proof -
  have u: "[1..1 :: int] = [1]"
    by (simp add: upto.simps)
  have "learn_loop toy 1 [1] toy_started = Inr (snd toy_after_one)"
    using toy_after_one_step toy_after_one_fields(1)
    by (simp add: case_prod_beta)
  then show ?thesis
    by (simp add: learn_one_trial_def u toy_started_def [symmetric] case_prod_beta)
qed

theorem best_mean_reward_reset_and_growth_witness:
  "trial_step toy 1 1 (fst toy_started, snd toy_started)
     = Inr (False, fst (snd toy_after_one), snd (snd toy_after_one))
   \<and> learn_one_trial toy toy_trainer 1 1 = Inr (snd (snd toy_after_one))
   \<and> best_mean_reward (snd toy_started) = None
   \<and> best_mean_reward (snd (snd toy_after_one)) = Some 1
   \<and> best_mean_reward (snd toy_started) < best_mean_reward (snd (snd toy_after_one))
   \<and> best_mean_reward toy_trainer \<le> best_mean_reward (snd (snd toy_after_one))
   \<and> best_mean_reward (reinit_network toy (snd (snd toy_after_one))) = None
   \<and> rb_size (replay_buffer (reinit_network toy (snd (snd toy_after_one)))) = 0"
proof -
  have e: "(False, snd toy_after_one) = toy_after_one"
    using toy_after_one_fields(1) by (metis prod.collapse)
  have first: "trial_step toy 1 1 (fst toy_started, snd toy_started)
      = Inr (False, fst (snd toy_after_one), snd (snd toy_after_one))"
    by (simp only: prod.collapse e toy_after_one_step)
  note th = best_mean_reward_reset_and_growth [where c = toy and self = "snd toy_started"
      and n = 1 and t = 1 and ls = "fst toy_started" and ret = False
      and ls' = "fst (snd toy_after_one)" and self' = "snd (snd toy_after_one)"]
  from th first have g: "best_mean_reward (snd (snd toy_after_one)) = best_mean_reward (snd toy_started)
      \<or> best_mean_reward (snd toy_started) < best_mean_reward (snd (snd toy_after_one))"
    by blast
  note th1 = best_mean_reward_reset_and_growth [where c = toy and self = toy_trainer
      and timesteps = 1 and n = 1 and self'' = "snd (snd toy_after_one)"]
  from th1 toy_one_trial
  have m: "best_mean_reward toy_trainer \<le> best_mean_reward (snd (snd toy_after_one))"
    by blast
  note th2 = best_mean_reward_reset_and_growth [where c = toy and self = "snd (snd toy_after_one)"]
  from th2 have r: "best_mean_reward (reinit_network toy (snd (snd toy_after_one))) = None"
    "rb_size (replay_buffer (reinit_network toy (snd (snd toy_after_one)))) = 0"
    by blast+
  have b: "best_mean_reward (snd toy_started) = None"
    "best_mean_reward (snd (snd toy_after_one)) = Some 1"
    by (simp_all add: toy_started_fields toy_after_one_fields)
  from g b have s: "best_mean_reward (snd toy_started) < best_mean_reward (snd (snd toy_after_one))"
    by auto
  show ?thesis
    using first toy_one_trial b s m r by simp
qed

subsection \<open>Loading a checkpoint, evaluation and test\<close>

text \<open>
  C9. \<^verbatim>\<open>test\<close> with a positive step budget, \<^verbatim>\<open>test\<close> without a budget on a trainer
  whose \<open>max_ep_len\<close> is positive, and \<^verbatim>\<open>evaluate_agent\<close> raise \<^verbatim>\<open>AttributeError\<close>
  before any step of the environment: they accumulate no return and no length. With a
  budget of zero steps \<^verbatim>\<open>test\<close> returns \<open>(0, 0)\<close>.
\<close>

theorem test_raises_attribute_error:
  "fst (test c self (Some (1 + int k)) render recording) = Inl (AttributeError ''get_action'')
   \<and> fst (test c (self\<lparr>max_ep_len := 1 + int k\<rparr>) None render recording)
       = Inl (AttributeError ''get_action'')
   \<and> fst (test c self (Some 0) render recording) = Inr (0, 0)
   \<and> fst (evaluate_agent c self) = Inl (AttributeError ''num_test_episodes'')"
  by (simp add: test_def evaluate_agent_def Let_def split: prod.splits)










subsection \<open>Who writes the target parameters\<close>








































end
